theory Spec2Isabelle
  imports Main
begin

section \<open>Frame extraction from video: a model of restore.cpp\<close>

text \<open>
  The program reads a list of frame labels from a text file, decodes a video with the
  FFmpeg libraries and writes every decoded frame as a JPEG file named by the next label.
  FFmpeg, the C++ filesystem library and the C file API are not part of the repository:
  their answers are inputs of the model. What a video file makes the demuxer and the
  decoder do is a finite script (\<open>video\<close>), what the converter, the JPEG encoder and the
  file API answer is a record of functions (\<open>env\<close>), and what the program does to the
  outside is a list of events (\<open>trace\<close>) together with the set of existing paths.
  The decoder is a queue: a packet it accepts adds what the packet releases, the
  end-of-stream signal adds what it held back, and \<open>avcodec_receive_frame\<close> takes the
  head. \<open>fs::exists\<close> and \<open>fs::create_directories\<close> are called without an error code:
  they return or throw \<open>filesystem_error\<close>, which nothing in the program catches, so a
  throw ends the program (\<open>Throws\<close>). A path reaches the operating system as a C
  string: up to its first NUL byte. The counters \<open>frame_count\<close> and \<open>decoded_frames\<close>
  are C ints that only grow while below \<open>static_cast<int>(frame_indices.size())\<close>, so
  they never overflow and are counted in \<open>nat\<close>; the cast itself wraps and is written
  out.
\<close>

subsection \<open>Data\<close>

type_synonym path = string
type_synonym bytes = "nat list"

text \<open>A call returns a value or throws an exception that is not caught.\<close>

datatype 'a outcome = Returns 'a | Throws

datatype pix_fmt = AV_PIX_FMT_YUV420P | AV_PIX_FMT_YUVJ420P | AV_PIX_FMT_OTHER nat

text \<open>An \<open>AVFrame\<close>: the fields the program reads or sets.\<close>

record frame =
  width :: int
  height :: int
  format :: pix_fmt
  data :: "nat list"

datatype media_type = AVMEDIA_TYPE_VIDEO | AVMEDIA_TYPE_AUDIO | AVMEDIA_TYPE_UNKNOWN

text \<open>A stream of the container: its media type, and whether
  \<open>avcodec_find_decoder\<close> finds a decoder for its codec id.\<close>

record stream =
  codec_type :: media_type
  decoder_found :: bool

text \<open>What \<open>avcodec_receive_frame\<close> hands out next: a frame, or a hard error
  (a negative code other than \<open>AVERROR(EAGAIN)\<close> and \<open>AVERROR_EOF\<close>). An empty
  queue answers \<open>AVERROR(EAGAIN)\<close>, and \<open>AVERROR_EOF\<close> once flushed.\<close>

datatype decoder_output = Frame frame | HardError int

text \<open>A packet read by \<open>av_read_frame\<close>: its stream, the return code of
  \<open>avcodec_send_packet\<close> for it, and what the decoder releases once it has accepted it.\<close>

record packet =
  stream_index :: nat
  send_packet_ret :: int
  released :: "decoder_output list"

text \<open>What the libraries do with one video file, call by call.\<close>

record video =
  avformat_open_input_ret :: int
  avformat_find_stream_info_ret :: int
  streams :: "stream list"
  avcodec_alloc_context3_ok :: bool
  avcodec_parameters_to_context_ret :: int
  avcodec_open2_ret :: int
  frame_alloc_ok :: bool
  packet_alloc_ok :: bool
  pix_fmt :: pix_fmt
  sws_getContext_ok :: bool
  packets :: "packet list"
  flushed :: "decoder_output list"

text \<open>The lines the program prints, one constructor per message of the source.\<close>

datatype message =
    JpegEncoderNotFound
  | JpegContextAllocFailed
  | JpegOpenFailed
  | PacketAllocFailed
  | SendFrameFailed int
  | ReceivePacketFailed int
  | OutputOpenFailed path
  | ShortWrite nat nat
  | CreateOutputDirFailed path
  | IndexFileMissing path
  | IndexFileOpenFailed path
  | VideoFileMissing path
  | VideoOpenFailed path
  | ErrorCode int
  | StreamInfoFailed
  | NoVideoStreamOrDecoder
  | DecoderContextAllocFailed
  | CodecParametersCopyFailed
  | DecoderOpenFailed
  | FrameOrPacketAllocFailed
  | SwsContextFailed
  | ReceiveFrameFailed int
  | ConvertedFrameAllocFailed
  | ConvertedBufferAllocFailed
  | ConversionFailed
  | SaveFrameFailed path
  | DllDirectoryFailed
  | MainVideoMissing path
  | MainIndexMissing path
  | MainOutputDirFailed path
  | ProcessingFailed string
  | AllCamerasSucceeded
  | SomeCamerasFailed

text \<open>What the program does to the outside: a printed line, a call of
  \<open>sws_getContext\<close>, \<open>sws_scale\<close> or \<open>avcodec_send_frame\<close> (JPEG encoder), a file
  opened with \<open>fopen(path, "wb")\<close> (created or truncated), the bytes \<open>fwrite\<close> wrote.\<close>

datatype event =
    Print message
  | SwsGetContext pix_fmt
  | SwsScale frame
  | SendFrame frame
  | FOpen path
  | FWrite path bytes

text \<open>The paths that exist, as the operating system names them, and the trace.\<close>

record world =
  fs_exists :: "path \<Rightarrow> bool"
  trace :: "event list"

text \<open>The answers of the libraries that do not come from the video file. Allocation
  results are indexed by the frame in work, so that they may differ between frames.
  \<open>fs_error p\<close>: the status of \<open>p\<close> cannot be read and \<open>fs::exists\<close> throws.
  \<open>create_directories p\<close>: a directory was created (\<open>Returns True\<close>), none was and there
  was no error (\<open>Returns False\<close>), or the call throws.\<close>

record env =
  fs_error :: "path \<Rightarrow> bool"
  create_directories :: "path \<Rightarrow> bool outcome"
  ifstream_open :: "path \<Rightarrow> string option"
  avformat :: "path \<Rightarrow> video"
  av_frame_alloc :: "frame \<Rightarrow> bool"
  av_frame_get_buffer :: "frame \<Rightarrow> int"
  sws_scale :: "frame \<Rightarrow> int \<times> nat list"
  avcodec_find_encoder :: bool
  jpeg_alloc_context3 :: "frame \<Rightarrow> bool"
  jpeg_open2 :: "frame \<Rightarrow> int \<Rightarrow> int"
  av_packet_alloc :: "frame \<Rightarrow> bool"
  avcodec_send_frame :: "frame \<Rightarrow> int"
  avcodec_receive_packet :: "frame \<Rightarrow> int"
  jpeg_packet :: "frame \<Rightarrow> bytes"
  fopen_wb :: "path \<Rightarrow> bool"
  fwrite :: "path \<Rightarrow> bytes \<Rightarrow> nat"
  SetDllDirectoryA :: "bool option"

definition print :: "message \<Rightarrow> world \<Rightarrow> world" where
  "print m w = w\<lparr>trace := trace w @ [Print m]\<rparr>"

definition emit :: "event \<Rightarrow> world \<Rightarrow> world" where
  "emit e w = w\<lparr>trace := trace w @ [e]\<rparr>"

text \<open>\<open>s.c_str()\<close> as a C function reads it: the characters before the first NUL.\<close>

definition c_str :: "string \<Rightarrow> string" where
  "c_str s = takeWhile (\<lambda>c. c \<noteq> CHR 0x00) s"

text \<open>\<open>static_cast<int>(n)\<close> of a \<open>size_t\<close>, for a 32-bit \<open>int\<close>.\<close>

definition static_cast_int :: "nat \<Rightarrow> int" where
  "static_cast_int n = (int n + 2 ^ 31) mod 2 ^ 32 - 2 ^ 31"

text \<open>\<open>fs::exists(p)\<close>.\<close>

definition path_exists :: "env \<Rightarrow> world \<Rightarrow> path \<Rightarrow> bool outcome" where
  "path_exists E w p =
     (if fs_error E (c_str p) then Throws else Returns (fs_exists w (c_str p)))"

subsection \<open>Reading the labels (lines 126 to 133)\<close>

definition newline :: char where
  "newline = CHR 0x0A"

text \<open>\<open>std::getline\<close> on the rest of the stream: it fails when nothing is left, and
  otherwise takes the characters up to the next newline (or to the end) and drops that
  newline.\<close>

fun getline :: "string \<Rightarrow> (string \<times> string) option" where
  "getline [] = None"
| "getline (c # cs) =
     Some (takeWhile (\<lambda>x. x \<noteq> newline) (c # cs),
           drop 1 (dropWhile (\<lambda>x. x \<noteq> newline) (c # cs)))"

lemma getline_shorter: "getline s = Some (l, r) \<Longrightarrow> length r < length s"
proof (cases s)
  case Nil
  assume "getline s = Some (l, r)"
  with Nil show ?thesis by simp
next
  case (Cons c cs)
  assume "getline s = Some (l, r)"
  with Cons have r: "r = drop 1 (dropWhile (\<lambda>x. x \<noteq> newline) (c # cs))" by simp
  have "length (dropWhile (\<lambda>x. x \<noteq> newline) (c # cs)) \<le> length (c # cs)"
    by (rule length_dropWhile_le)
  moreover have "length r < length (c # cs)
    \<or> dropWhile (\<lambda>x. x \<noteq> newline) (c # cs) = []"
    using r calculation by (cases "dropWhile (\<lambda>x. x \<noteq> newline) (c # cs)") auto
  ultimately show ?thesis using r Cons by auto
qed

text \<open>The loop \<open>while (std::getline(index_file, line)) if (!line.empty())
  frame_indices.push_back(line)\<close>.\<close>

function read_frame_indices :: "string \<Rightarrow> string list \<Rightarrow> string list" where
  "read_frame_indices index_file frame_indices =
     (case getline index_file of
        None \<Rightarrow> frame_indices
      | Some (line, rest) \<Rightarrow>
          read_frame_indices rest
            (if line \<noteq> [] then frame_indices @ [line] else frame_indices))"
  by pat_completeness auto
termination
  by (relation "measure (\<lambda>(index_file, frame_indices). length index_file)")
     (auto dest: getline_shorter)

declare read_frame_indices.simps [simp del]

text \<open>The text file whose lines are \<open>ls\<close>, each ended by a newline, followed by a last
  line \<open>lst\<close> with no newline after it (\<open>lst = []\<close> when the file ends in a newline).\<close>

definition text_file :: "string list \<Rightarrow> string \<Rightarrow> string" where
  "text_file ls lst = concat (map (\<lambda>l. l @ [newline]) ls) @ lst"

subsection \<open>The JPEG encoder: \<open>decode_and_save_frame\<close> (lines 22 to 101)\<close>

text \<open>Every early return of the source is a branch, in the source's order. The file is
  opened only in the last branch; a short write is printed and the function still
  returns \<open>true\<close>. \<open>fopen\<close> gets \<open>output_path.c_str()\<close>; the messages print the whole
  string. The parameter \<open>codec_ctx\<close> of the source is not used by it and is left out.\<close>

definition decode_and_save_frame ::
  "env \<Rightarrow> frame \<Rightarrow> path \<Rightarrow> int \<Rightarrow> world \<Rightarrow> bool \<times> world" where
  "decode_and_save_frame E frame output_path quality w =
     (if \<not> avcodec_find_encoder E then (False, print JpegEncoderNotFound w)
      else if \<not> jpeg_alloc_context3 E frame then (False, print JpegContextAllocFailed w)
      else if jpeg_open2 E frame quality < 0 then (False, print JpegOpenFailed w)
      else if \<not> av_packet_alloc E frame then (False, print PacketAllocFailed w)
      else if avcodec_send_frame E frame < 0
        then (False, print (SendFrameFailed (avcodec_send_frame E frame))
                       (emit (SendFrame frame) w))
      else if avcodec_receive_packet E frame < 0
        then (False, print (ReceivePacketFailed (avcodec_receive_packet E frame))
                       (emit (SendFrame frame) w))
      else if \<not> fopen_wb E (c_str output_path)
        then (False, print (OutputOpenFailed output_path) (emit (SendFrame frame) w))
      else
        (let pkt = jpeg_packet E frame;
             file = c_str output_path;
             written = min (fwrite E file pkt) (length pkt);
             w1 = emit (FOpen file) (emit (SendFrame frame) w);
             w2 = emit (FWrite file (take written pkt))
                    (w1\<lparr>fs_exists := (fs_exists w1)(file := True)\<rparr>)
         in (True, if written \<noteq> length pkt
                   then print (ShortWrite (length pkt) written) w2 else w2)))"

subsection \<open>The decode loop (lines 240 to 341)\<close>

record loop_state =
  frame_count :: nat
  decoded_frames :: nat
  success :: bool
  world :: world

text \<open>Lines 290 to 321, when a conversion context exists: allocate the converted frame
  and its buffer, run \<open>sws_scale\<close>. \<open>None\<close> is one of the three failures.\<close>

definition convert_frame :: "env \<Rightarrow> frame \<Rightarrow> world \<Rightarrow> frame option \<times> world" where
  "convert_frame E frame w =
     (if \<not> av_frame_alloc E frame then (None, print ConvertedFrameAllocFailed w)
      else
        (let converted_frame =
               \<lparr>width = width frame, height = height frame,
                format = AV_PIX_FMT_YUV420P, data = []\<rparr>
         in if av_frame_get_buffer E converted_frame < 0
            then (None, print ConvertedBufferAllocFailed w)
            else if fst (sws_scale E frame) \<le> 0
              then (None, print ConversionFailed (emit (SwsScale frame) w))
            else (Some (converted_frame\<lparr>data := snd (sws_scale E frame)\<rparr>),
                  emit (SwsScale frame) w)))"

definition jpg_path :: "path \<Rightarrow> string \<Rightarrow> path" where
  "jpg_path output_dir label = output_dir @ ''/'' @ label @ ''.jpg''"

text \<open>The inner loop (lines 267 to 337) on the decoder's queue: it returns what it
  leaves in the decoder. It breaks on an empty queue, on a hard error, when the labels
  are used up, and when the conversion fails (in that case before \<open>frame_count++\<close>).\<close>

fun receive_loop ::
  "env \<Rightarrow> bool \<Rightarrow> string list \<Rightarrow> path \<Rightarrow> decoder_output list \<Rightarrow> loop_state
   \<Rightarrow> decoder_output list \<times> loop_state" where
  "receive_loop E sws_ctx frame_indices output_dir [] s = ([], s)"
| "receive_loop E sws_ctx frame_indices output_dir (HardError ret # q) s =
     (q, s\<lparr>success := False, world := print (ReceiveFrameFailed ret) (world s)\<rparr>)"
| "receive_loop E sws_ctx frame_indices output_dir (Frame frame # q) s =
     (if int (frame_count s) \<ge> static_cast_int (length frame_indices) then (q, s)
      else
        (let output_path = jpg_path output_dir (frame_indices ! frame_count s) in
         case (if sws_ctx then convert_frame E frame (world s) else (Some frame, world s)) of
           (None, w1) \<Rightarrow> (q, s\<lparr>success := False, world := w1\<rparr>)
         | (Some output_frame, w1) \<Rightarrow>
             (case decode_and_save_frame E output_frame output_path 100 w1 of
                (False, w2) \<Rightarrow>
                  receive_loop E sws_ctx frame_indices output_dir q
                    (s\<lparr>frame_count := frame_count s + 1, success := False,
                       world := print (SaveFrameFailed output_path) w2\<rparr>)
              | (True, w2) \<Rightarrow>
                  receive_loop E sws_ctx frame_indices output_dir q
                    (s\<lparr>frame_count := frame_count s + 1,
                       decoded_frames := decoded_frames s + 1, world := w2\<rparr>))))"

text \<open>The outer loop (lines 245 to 341) over the packets \<open>av_read_frame\<close> returns. The
  test \<open>!codec_ctx || !packet\<close> of line 253 is false there (both were checked at
  line 182 and line 211), so it has no branch.\<close>

fun read_loop ::
  "env \<Rightarrow> bool \<Rightarrow> string list \<Rightarrow> path \<Rightarrow> nat \<Rightarrow> packet list
   \<Rightarrow> decoder_output list \<times> loop_state \<Rightarrow> decoder_output list \<times> loop_state" where
  "read_loop E sws_ctx frame_indices output_dir video_stream_index [] (q, s) = (q, s)"
| "read_loop E sws_ctx frame_indices output_dir video_stream_index (p # ps) (q, s) =
     (if stream_index p = video_stream_index
      then (if send_packet_ret p < 0
            then read_loop E sws_ctx frame_indices output_dir video_stream_index ps (q, s)
            else read_loop E sws_ctx frame_indices output_dir video_stream_index ps
                   (receive_loop E sws_ctx frame_indices output_dir (q @ released p) s))
      else read_loop E sws_ctx frame_indices output_dir video_stream_index ps (q, s))"

subsection \<open>Flushing the decoder (lines 343 to 357)\<close>

text \<open>\<open>while (avcodec_receive_frame(codec_ctx, frame) >= 0)\<close>: any negative code ends
  the loop. The frame goes to \<open>decode_and_save_frame\<close> as it is.\<close>

fun flush_loop :: "env \<Rightarrow> string list \<Rightarrow> path \<Rightarrow> decoder_output list \<Rightarrow> loop_state \<Rightarrow> loop_state" where
  "flush_loop E frame_indices output_dir [] s = s"
| "flush_loop E frame_indices output_dir (HardError ret # q) s = s"
| "flush_loop E frame_indices output_dir (Frame frame # q) s =
     (if int (frame_count s) < static_cast_int (length frame_indices)
      then
        (let output_path = jpg_path output_dir (frame_indices ! frame_count s) in
         case decode_and_save_frame E frame output_path 100 (world s) of
           (False, w2) \<Rightarrow>
             flush_loop E frame_indices output_dir q
               (s\<lparr>frame_count := frame_count s + 1, success := False,
                  world := print (SaveFrameFailed output_path) w2\<rparr>)
         | (True, w2) \<Rightarrow>
             flush_loop E frame_indices output_dir q
               (s\<lparr>frame_count := frame_count s + 1,
                  decoded_frames := decoded_frames s + 1, world := w2\<rparr>))
      else flush_loop E frame_indices output_dir q s)"

subsection \<open>Opening a job (lines 107 to 238)\<close>

text \<open>\<open>!fs::exists(dir) && !fs::create_directories(dir)\<close>: \<open>Returns None\<close> when the test
  is true, \<open>Returns (Some w1)\<close> when it is false, \<open>Throws\<close> when one of the two calls
  throws. \<open>create_directories\<close> is only called when the path does not exist.\<close>

definition exists_or_create :: "env \<Rightarrow> path \<Rightarrow> world \<Rightarrow> world option outcome" where
  "exists_or_create E dir w =
     (case path_exists E w dir of
        Throws \<Rightarrow> Throws
      | Returns True \<Rightarrow> Returns (Some w)
      | Returns False \<Rightarrow>
          (case create_directories E (c_str dir) of
             Throws \<Rightarrow> Throws
           | Returns True \<Rightarrow> Returns (Some (w\<lparr>fs_exists := (fs_exists w)(c_str dir := True)\<rparr>))
           | Returns False \<Rightarrow> Returns None))"

text \<open>Lines 161 to 172: the first stream of type video, with its index and whether a
  decoder was found for it.\<close>

fun find_video_stream :: "stream list \<Rightarrow> nat \<Rightarrow> (nat \<times> bool) option" where
  "find_video_stream [] i = None"
| "find_video_stream (st # sts) i =
     (if codec_type st = AVMEDIA_TYPE_VIDEO then Some (i, decoder_found st)
      else find_video_stream sts (Suc i))"

text \<open>What the decode loop needs, once every step of the set-up has passed.\<close>

record job =
  frame_indices :: "string list"
  video_stream_index :: nat
  sws_ctx :: bool
  input :: video

text \<open>Lines 113 to 238: the label file, the container, the video stream, the decoder,
  the conversion context. \<open>Inl\<close> is what \<open>decode_video_to_images\<close> then returns or throws,
  with the world at that point.\<close>

definition open_input ::
  "env \<Rightarrow> path \<Rightarrow> path \<Rightarrow> world \<Rightarrow> bool outcome \<times> world + job \<times> world" where
  "open_input E video_path txt_path w1 =
     (case path_exists E w1 txt_path of
        Throws \<Rightarrow> Inl (Throws, w1)
      | Returns False \<Rightarrow> Inl (Returns False, print (IndexFileMissing txt_path) w1)
      | Returns True \<Rightarrow>
     (case ifstream_open E (c_str txt_path) of
        None \<Rightarrow> Inl (Returns False, print (IndexFileOpenFailed txt_path) w1)
      | Some index_file \<Rightarrow>
     (case path_exists E w1 video_path of
        Throws \<Rightarrow> Inl (Throws, w1)
      | Returns False \<Rightarrow> Inl (Returns False, print (VideoFileMissing video_path) w1)
      | Returns True \<Rightarrow>
         (let labels = read_frame_indices index_file [];
              v = avformat E (c_str video_path) in
          if avformat_open_input_ret v \<noteq> 0
            then Inl (Returns False, print (ErrorCode (avformat_open_input_ret v))
                       (print (VideoOpenFailed video_path) w1))
          else if avformat_find_stream_info_ret v < 0
            then Inl (Returns False, print StreamInfoFailed w1)
          else
            (case find_video_stream (streams v) 0 of
               None \<Rightarrow> Inl (Returns False, print NoVideoStreamOrDecoder w1)
             | Some (i, codec) \<Rightarrow>
                 (if \<not> codec then Inl (Returns False, print NoVideoStreamOrDecoder w1)
                  else if \<not> avcodec_alloc_context3_ok v
                    then Inl (Returns False, print DecoderContextAllocFailed w1)
                  else if avcodec_parameters_to_context_ret v < 0
                    then Inl (Returns False, print CodecParametersCopyFailed w1)
                  else if avcodec_open2_ret v < 0
                    then Inl (Returns False, print DecoderOpenFailed w1)
                  else if \<not> frame_alloc_ok v \<or> \<not> packet_alloc_ok v
                    then Inl (Returns False, print FrameOrPacketAllocFailed w1)
                  else if pix_fmt v \<noteq> AV_PIX_FMT_YUV420P
                          \<and> pix_fmt v \<noteq> AV_PIX_FMT_YUVJ420P
                    then (if \<not> sws_getContext_ok v
                          then Inl (Returns False,
                                    print SwsContextFailed
                                      (emit (SwsGetContext (pix_fmt v)) w1))
                          else Inr (\<lparr>frame_indices = labels, video_stream_index = i,
                                     sws_ctx = True, input = v\<rparr>,
                                    emit (SwsGetContext (pix_fmt v)) w1))
                  else Inr (\<lparr>frame_indices = labels, video_stream_index = i,
                             sws_ctx = False, input = v\<rparr>, w1)))))))"

text \<open>Lines 107 to 238: the output directory first, then the inputs.\<close>

definition open_job ::
  "env \<Rightarrow> path \<Rightarrow> path \<Rightarrow> path \<Rightarrow> world \<Rightarrow> bool outcome \<times> world + job \<times> world" where
  "open_job E video_path txt_path output_dir w =
     (case exists_or_create E output_dir w of
        Throws \<Rightarrow> Inl (Throws, w)
      | Returns None \<Rightarrow> Inl (Returns False, print (CreateOutputDirFailed output_dir) w)
      | Returns (Some w1) \<Rightarrow> open_input E video_path txt_path w1)"

subsection \<open>The pipeline: \<open>decode_video_to_images\<close> (lines 104 to 367)\<close>

definition decode_frames :: "env \<Rightarrow> path \<Rightarrow> job \<Rightarrow> world \<Rightarrow> loop_state" where
  "decode_frames E output_dir j w =
     (let s0 = \<lparr>frame_count = 0, decoded_frames = 0, success = True, world = w\<rparr>;
          r = read_loop E (sws_ctx j) (frame_indices j) output_dir (video_stream_index j)
                (packets (input j)) ([], s0)
      in flush_loop E (frame_indices j) output_dir (fst r @ flushed (input j)) (snd r))"

definition decode_video_to_images ::
  "env \<Rightarrow> path \<Rightarrow> path \<Rightarrow> path \<Rightarrow> world \<Rightarrow> bool outcome \<times> world" where
  "decode_video_to_images E video_path txt_path output_dir w =
     (case open_job E video_path txt_path output_dir w of
        Inl r \<Rightarrow> r
      | Inr (j, w1) \<Rightarrow>
          (let s = decode_frames E output_dir j w1 in (Returns (success s), world s)))"

subsection \<open>The orchestrator: \<open>main\<close> (lines 369 to 431)\<close>

definition cameras :: "string list" where
  "cameras = [''ofilm_around_front_190_3M'', ''ofilm_around_rear_190_3M'',
              ''ofilm_around_left_190_3M'', ''ofilm_around_right_190_3M'']"

definition video_dir :: path where
  "video_dir = ''c:'' @ [CHR 0x5C] @ ''Users'' @ [CHR 0x5C] @ ''bykong4'' @ [CHR 0x5C]
     @ ''Desktop'' @ [CHR 0x5C] @ ''image'' @ [CHR 0x5C] @ ''video''"

definition output_base :: path where
  "output_base = ''c:'' @ [CHR 0x5C] @ ''Users'' @ [CHR 0x5C] @ ''bykong4'' @ [CHR 0x5C]
     @ ''Desktop'' @ [CHR 0x5C] @ ''image''"

text \<open>The body of the loop over the cameras (lines 394 to 421): whether the job
  succeeded, or \<open>Throws\<close> when a filesystem call of the body or of the pipeline throws.\<close>

definition camera_job :: "env \<Rightarrow> string \<Rightarrow> world \<Rightarrow> bool outcome \<times> world" where
  "camera_job E prefix w =
     (let video_path = video_dir @ [CHR 0x5C] @ prefix @ ''.mp4'';
          txt_path = video_dir @ [CHR 0x5C] @ prefix @ ''.txt'';
          output_dir = output_base @ [CHR 0x5C] @ prefix
      in case path_exists E w video_path of
           Throws \<Rightarrow> (Throws, w)
         | Returns False \<Rightarrow> (Returns False, print (MainVideoMissing video_path) w)
         | Returns True \<Rightarrow>
        (case path_exists E w txt_path of
           Throws \<Rightarrow> (Throws, w)
         | Returns False \<Rightarrow> (Returns False, print (MainIndexMissing txt_path) w)
         | Returns True \<Rightarrow>
        (case exists_or_create E output_dir w of
           Throws \<Rightarrow> (Throws, w)
         | Returns None \<Rightarrow> (Returns False, print (MainOutputDirFailed output_dir) w)
         | Returns (Some w1) \<Rightarrow>
             (case decode_video_to_images E video_path txt_path output_dir w1 of
                (Throws, w2) \<Rightarrow> (Throws, w2)
              | (Returns False, w2) \<Rightarrow> (Returns False, print (ProcessingFailed prefix) w2)
              | (Returns True, w2) \<Rightarrow> (Returns True, w2)))))"

text \<open>The loop: \<open>all_success\<close> is set to false by a failed job and never set back. An
  exception leaves the loop and \<open>main\<close>: no later job is run.\<close>

fun camera_loop :: "env \<Rightarrow> string list \<Rightarrow> bool \<times> world \<Rightarrow> bool outcome \<times> world" where
  "camera_loop E [] (all_success, w) = (Returns all_success, w)"
| "camera_loop E (prefix # rest) (all_success, w) =
     (case camera_job E prefix w of
        (Throws, w') \<Rightarrow> (Throws, w')
      | (Returns False, w') \<Rightarrow> camera_loop E rest (False, w')
      | (Returns True, w') \<Rightarrow> camera_loop E rest (all_success, w'))"

text \<open>\<open>SetDllDirectoryA E\<close> is \<open>None\<close> in a build without \<open>_WIN32\<close>.\<close>

definition main :: "env \<Rightarrow> world \<Rightarrow> int outcome \<times> world" where
  "main E w =
     (if SetDllDirectoryA E = Some False then (Returns 1, print DllDirectoryFailed w)
      else
        (case camera_loop E cameras (True, w) of
           (Throws, w') \<Rightarrow> (Throws, w')
         | (Returns all_success, w') \<Rightarrow>
             (Returns 0,
              print (if all_success then AllCamerasSucceeded else SomeCamerasFailed) w')))"

subsection \<open>Reading a run\<close>


fun file_event :: "event \<Rightarrow> bool" where
  "file_event (FOpen p) = True"
| "file_event (FWrite p b) = True"
| "file_event e = False"

fun conversion_event :: "event \<Rightarrow> bool" where
  "conversion_event (SwsGetContext f) = True"
| "conversion_event (SwsScale f) = True"
| "conversion_event e = False"

fun sent_frames :: "event list \<Rightarrow> frame list" where
  "sent_frames [] = []"
| "sent_frames (SendFrame f # es) = f # sent_frames es"
| "sent_frames (e # es) = sent_frames es"

text \<open>The encoder got as far as \<open>avcodec_send_frame\<close> for the frame; it produced a
  packet for it (every step of \<open>decode_and_save_frame\<close> before \<open>fopen\<close> passed).\<close>

definition encoder_started :: "env \<Rightarrow> frame \<Rightarrow> int \<Rightarrow> bool" where
  "encoder_started E frame quality =
     (avcodec_find_encoder E \<and> jpeg_alloc_context3 E frame
      \<and> 0 \<le> jpeg_open2 E frame quality \<and> av_packet_alloc E frame)"

definition packet_produced :: "env \<Rightarrow> frame \<Rightarrow> int \<Rightarrow> bool" where
  "packet_produced E frame quality =
     (avcodec_find_encoder E \<and> jpeg_alloc_context3 E frame
      \<and> 0 \<le> jpeg_open2 E frame quality \<and> av_packet_alloc E frame
      \<and> 0 \<le> avcodec_send_frame E frame \<and> 0 \<le> avcodec_receive_packet E frame)"



text \<open>What an image file is, as events: the frame is sent to the encoder, the file
  named by the C string of the path is opened, and the bytes of the frame's packet that
  \<open>fwrite\<close> takes are written to it, with a line when they are not all of them.\<close>

definition image_file_events :: "env \<Rightarrow> frame \<Rightarrow> path \<Rightarrow> event list" where
  "image_file_events E frame output_path =
     [SendFrame frame, FOpen (c_str output_path),
      FWrite (c_str output_path)
        (take (fwrite E (c_str output_path) (jpeg_packet E frame)) (jpeg_packet E frame))]
     @ (if fwrite E (c_str output_path) (jpeg_packet E frame) < length (jpeg_packet E frame)
        then [Print (ShortWrite (length (jpeg_packet E frame))
                (fwrite E (c_str output_path) (jpeg_packet E frame)))]
        else [])"


fun is_frame :: "decoder_output \<Rightarrow> bool" where
  "is_frame (Frame f) = True"
| "is_frame (HardError ret) = False"

fun frames_of :: "decoder_output list \<Rightarrow> frame list" where
  "frames_of [] = []"
| "frames_of (Frame f # q) = f # frames_of q"
| "frames_of (HardError ret # q) = frames_of q"

text \<open>What the decoder of a video gives out over the whole run: the output of every
  packet of the selected stream that it accepted, then what it holds back until the
  end-of-stream signal; its frames in that order, tagged by the phase.\<close>

definition main_outputs :: "nat \<Rightarrow> packet list \<Rightarrow> decoder_output list" where
  "main_outputs i ps =
     concat (map released (filter (\<lambda>p. stream_index p = i \<and> 0 \<le> send_packet_ret p) ps))"

definition decoder_outputs :: "job \<Rightarrow> decoder_output list" where
  "decoder_outputs j =
     main_outputs (video_stream_index j) (packets (input j)) @ flushed (input j)"

definition tagged_frames :: "job \<Rightarrow> (bool \<times> frame) list" where
  "tagged_frames j =
     map (Pair False) (frames_of (main_outputs (video_stream_index j) (packets (input j))))
     @ map (Pair True) (frames_of (flushed (input j)))"

subsection \<open>Invariants of the decode loop\<close>

text \<open>The decoder has given out the tagged frames \<open>xs\<close> and no hard error: the cursor is
  \<open>min L (length xs)\<close>, what is observed of the state is what it was (\<open>base\<close>) followed
  by the contribution \<open>c\<close> of every frame that has a label, paired in order, and frames
  are left in the decoder only once the labels are used up.\<close>

definition paired ::
  "(loop_state \<Rightarrow> bool) \<Rightarrow> (loop_state \<Rightarrow> 'a list) \<Rightarrow> (bool \<times> frame \<Rightarrow> string \<Rightarrow> 'a list)
   \<Rightarrow> string list \<Rightarrow> 'a list \<Rightarrow> (bool \<times> frame) list \<Rightarrow> decoder_output list \<times> loop_state
   \<Rightarrow> bool" where
  "paired Q obs c labels base xs qs =
     (list_all is_frame (fst qs) \<and> Q (snd qs)
      \<and> frame_count (snd qs) = min (length labels) (length xs)
      \<and> obs (snd qs) = base @ concat (map2 c xs labels)
      \<and> (fst qs = [] \<or> length labels \<le> length xs))"

text \<open>Since \<open>w0\<close> no conversion event was added, and the frames sent to the encoder since
  then are among \<open>F\<close>.\<close>

definition unconverted :: "world \<Rightarrow> frame set \<Rightarrow> world \<Rightarrow> bool" where
  "unconverted w0 F w =
     (filter conversion_event (trace w) = filter conversion_event (trace w0)
      \<and> set (sent_frames (trace w)) \<subseteq> set (sent_frames (trace w0)) \<union> F)"

text \<open>Since \<open>w0\<close> no file event was added and no frame was sent to the encoder.\<close>

definition nothing_saved :: "world \<Rightarrow> world \<Rightarrow> bool" where
  "nothing_saved w0 w =
     (filter file_event (trace w) = filter file_event (trace w0)
      \<and> sent_frames (trace w) = sent_frames (trace w0))"

subsection \<open>A concrete environment\<close>

text \<open>An environment in which every library call succeeds: the label file has the
  given content, every path holds the given video, the converter and the encoder copy
  the pixel data, and \<open>fwrite\<close> writes at most \<open>n\<close> bytes (\<open>None\<close>: all of them).\<close>

definition demo_env :: "string \<Rightarrow> video \<Rightarrow> nat option \<Rightarrow> env" where
  "demo_env index_file v n =
     \<lparr>fs_error = (\<lambda>p. False),
      create_directories = (\<lambda>p. Returns True),
      ifstream_open = (\<lambda>p. Some index_file),
      avformat = (\<lambda>p. v),
      av_frame_alloc = (\<lambda>f. True),
      av_frame_get_buffer = (\<lambda>f. 0),
      sws_scale = (\<lambda>f. (1, data f)),
      avcodec_find_encoder = True,
      jpeg_alloc_context3 = (\<lambda>f. True),
      jpeg_open2 = (\<lambda>f q. 0),
      av_packet_alloc = (\<lambda>f. True),
      avcodec_send_frame = (\<lambda>f. 0),
      avcodec_receive_packet = (\<lambda>f. 0),
      jpeg_packet = (\<lambda>f. data f),
      fopen_wb = (\<lambda>p. True),
      fwrite = (\<lambda>p b. case n of None \<Rightarrow> length b | Some k \<Rightarrow> k),
      SetDllDirectoryA = None\<rparr>"

definition demo_world :: world where
  "demo_world = \<lparr>fs_exists = (\<lambda>p. True), trace = []\<rparr>"

definition demo_frame :: "pix_fmt \<Rightarrow> nat \<Rightarrow> frame" where
  "demo_frame fmt n = \<lparr>width = 2, height = 2, format = fmt, data = [n, n, n, n]\<rparr>"

text \<open>A video with one video stream in the given pixel format: a list of packets, and
  what the decoder holds back until it is flushed.\<close>

definition demo_video :: "pix_fmt \<Rightarrow> packet list \<Rightarrow> decoder_output list \<Rightarrow> video" where
  "demo_video fmt ps held =
     \<lparr>avformat_open_input_ret = 0,
      avformat_find_stream_info_ret = 0,
      streams = [\<lparr>codec_type = AVMEDIA_TYPE_AUDIO, decoder_found = True\<rparr>,
                 \<lparr>codec_type = AVMEDIA_TYPE_VIDEO, decoder_found = True\<rparr>],
      avcodec_alloc_context3_ok = True,
      avcodec_parameters_to_context_ret = 0,
      avcodec_open2_ret = 0,
      frame_alloc_ok = True,
      packet_alloc_ok = True,
      pix_fmt = fmt,
      sws_getContext_ok = True,
      packets = ps,
      flushed = held\<rparr>"

definition video_packet :: "decoder_output list \<Rightarrow> packet" where
  "video_packet out = \<lparr>stream_index = 1, send_packet_ret = 0, released = out\<rparr>"

text \<open>The environment \<open>E\<close>, but \<open>sws_scale\<close> fails on one frame; but \<open>av_frame_alloc\<close>
  fails for one frame; but \<open>fs::create_directories\<close> answers \<open>r\<close>.\<close>

definition conversion_fails_on :: "frame \<Rightarrow> env \<Rightarrow> env" where
  "conversion_fails_on bad E =
     E\<lparr>sws_scale := (\<lambda>f. if f = bad then (0, []) else sws_scale E f)\<rparr>"

definition frame_alloc_fails_on :: "frame \<Rightarrow> env \<Rightarrow> env" where
  "frame_alloc_fails_on bad E =
     E\<lparr>av_frame_alloc := (\<lambda>f. if f = bad then False else av_frame_alloc E f)\<rparr>"

definition create_directories_answers :: "bool outcome \<Rightarrow> env \<Rightarrow> env" where
  "create_directories_answers r E = E\<lparr>create_directories := (\<lambda>p. r)\<rparr>"

text \<open>A world in which everything exists but the output directory of the first
  camera.\<close>

definition front_directory_missing :: world where
  "front_directory_missing =
     \<lparr>fs_exists = (\<lambda>p. p \<noteq> output_base @ [CHR 0x5C] @ ''ofilm_around_front_190_3M''),
      trace = []\<rparr>"

section \<open>Properties\<close>

subsection \<open>The label source\<close>

lemma getline_line:
  "newline \<notin> set l \<Longrightarrow> getline (l @ newline # rest) = Some (l, rest)"
proof -
  assume n: "newline \<notin> set l"
  have t: "takeWhile (\<lambda>x. x \<noteq> newline) (l @ newline # rest) = l"
    using n by (induction l) auto
  have d: "dropWhile (\<lambda>x. x \<noteq> newline) (l @ newline # rest) = newline # rest"
    using n by (induction l) auto
  obtain c cs where e: "l @ newline # rest = c # cs" by (cases l) auto
  have "getline (c # cs) = Some (takeWhile (\<lambda>x. x \<noteq> newline) (c # cs),
           drop 1 (dropWhile (\<lambda>x. x \<noteq> newline) (c # cs)))" by simp
  then show ?thesis using t d unfolding e [symmetric] by simp
qed

lemma getline_last:
  "newline \<notin> set l \<Longrightarrow> l \<noteq> [] \<Longrightarrow> getline l = Some (l, [])"
proof -
  assume n: "newline \<notin> set l" and ne: "l \<noteq> []"
  have t: "takeWhile (\<lambda>x. x \<noteq> newline) l = l"
    using n by (induction l) auto
  have d: "dropWhile (\<lambda>x. x \<noteq> newline) l = []"
    using n by (induction l) auto
  obtain c cs where e: "l = c # cs" using ne by (cases l) auto
  have "getline (c # cs) = Some (takeWhile (\<lambda>x. x \<noteq> newline) (c # cs),
           drop 1 (dropWhile (\<lambda>x. x \<noteq> newline) (c # cs)))" by simp
  then show ?thesis using t d unfolding e [symmetric] by simp
qed

lemma read_frame_indices_text_file:
  "\<forall>l\<in>set ls. newline \<notin> set l \<Longrightarrow> newline \<notin> set lst \<Longrightarrow>
   read_frame_indices (text_file ls lst) acc = acc @ filter (\<lambda>l. l \<noteq> []) (ls @ [lst])"
proof (induction ls arbitrary: acc)
  case Nil
  show ?case
  proof (cases "lst = []")
    case True
    then show ?thesis by (simp add: text_file_def read_frame_indices.simps)
  next
    case False
    with Nil have "getline lst = Some (lst, [])" by (simp add: getline_last)
    then show ?thesis using False
      by (simp add: text_file_def read_frame_indices.simps [of lst]
            read_frame_indices.simps [of "[]"])
  qed
next
  case (Cons l ls)
  have tf: "text_file (l # ls) lst = l @ newline # text_file ls lst"
    by (simp add: text_file_def)
  have g: "getline (text_file (l # ls) lst) = Some (l, text_file ls lst)"
    unfolding tf using Cons.prems by (simp add: getline_line)
  have "read_frame_indices (text_file (l # ls) lst) acc =
        read_frame_indices (text_file ls lst) (if l \<noteq> [] then acc @ [l] else acc)"
    by (subst read_frame_indices.simps) (simp add: g)
  also have "\<dots> = (if l \<noteq> [] then acc @ [l] else acc) @ filter (\<lambda>l. l \<noteq> []) (ls @ [lst])"
    using Cons.prems by (intro Cons.IH) auto
  finally show ?case by simp
qed

lemma every_file_is_lines:
  "\<exists>ls lst. index_file = text_file ls lst
     \<and> (\<forall>l\<in>set ls. newline \<notin> set l) \<and> newline \<notin> set lst"
proof (induction index_file)
  case Nil
  have "[] = text_file [] []" by (simp add: text_file_def)
  then show ?case by fastforce
next
  case (Cons c cs)
  then obtain ls lst where cs: "cs = text_file ls lst"
    and ls: "\<forall>l\<in>set ls. newline \<notin> set l" and lst: "newline \<notin> set lst" by blast
  show ?case
  proof (cases "c = newline")
    case True
    have "c # cs = text_file ([] # ls) lst" using True cs by (simp add: text_file_def)
    moreover have "\<forall>l\<in>set ([] # ls). newline \<notin> set l" using ls by simp
    ultimately show ?thesis using lst by blast
  next
    case False
    show ?thesis
    proof (cases ls)
      case Nil
      have "c # cs = text_file [] (c # lst)" using cs Nil by (simp add: text_file_def)
      moreover have "newline \<notin> set (c # lst)" using lst False by simp
      ultimately show ?thesis by fastforce
    next
      case (Cons l ls')
      have "c # cs = text_file ((c # l) # ls') lst" using cs Cons by (simp add: text_file_def)
      moreover have "\<forall>x\<in>set ((c # l) # ls'). newline \<notin> set x"
        using ls Cons False by simp
      ultimately show ?thesis using lst by blast
    qed
  qed
qed

text \<open>
  C7. The labels read from a text file are its non-empty lines, unchanged and in the
  order of the file: for a file made of the lines \<open>ls\<close> (each ended by a newline) and a
  last line \<open>lst\<close> that no newline ends, the loop returns \<open>ls @ [lst]\<close> without the
  empty lines. Every file content is of that form (\<open>every_file_is_lines\<close>). The lines
  "a", "", "b" give the labels "a" and "b".
\<close>

theorem labels_are_the_nonempty_lines:
  "\<forall>l\<in>set ls. newline \<notin> set l \<Longrightarrow> newline \<notin> set lst \<Longrightarrow>
   read_frame_indices (text_file ls lst) [] = filter (\<lambda>l. l \<noteq> []) (ls @ [lst])"
  using read_frame_indices_text_file [of ls lst "[]"] by simp

theorem labels_are_the_nonempty_lines_witness:
  "text_file [''a'', [], ''b''] [] = ''a'' @ [newline, newline] @ ''b'' @ [newline]
   \<and> read_frame_indices (text_file [''a'', [], ''b''] []) [] = [''a'', ''b'']"
  using labels_are_the_nonempty_lines [of "[''a'', [], ''b'']" "[]"]
  by (simp add: newline_def text_file_def)

subsection \<open>Traces, casts and paths\<close>


lemma sent_frames_append: "sent_frames (a @ b) = sent_frames a @ sent_frames b"
  by (induction a rule: sent_frames.induct) auto

lemma trace_print [simp]: "trace (print m w) = trace w @ [Print m]"
  by (simp add: print_def)

lemma trace_emit [simp]: "trace (emit e w) = trace w @ [e]"
  by (simp add: emit_def)

lemma fs_exists_print [simp]: "fs_exists (print m w) = fs_exists w"
  by (simp add: print_def)

lemma fs_exists_emit [simp]: "fs_exists (emit e w) = fs_exists w"
  by (simp add: emit_def)

lemma static_cast_int_small: "n < 2 ^ 31 \<Longrightarrow> static_cast_int n = int n"
  by (simp add: static_cast_int_def)

lemma save_fails:
  "\<not> packet_produced E frame quality \<Longrightarrow>
   fst (decode_and_save_frame E frame output_path quality w) = False
   \<and> fs_exists (snd (decode_and_save_frame E frame output_path quality w)) = fs_exists w
   \<and> filter file_event (trace (snd (decode_and_save_frame E frame output_path quality w)))
       = filter file_event (trace w)"
  by (auto simp: packet_produced_def decode_and_save_frame_def)

lemma save_succeeds:
  assumes "packet_produced E frame quality" and "fopen_wb E (c_str output_path)"
  shows "decode_and_save_frame E frame output_path quality w =
     (True, w\<lparr>fs_exists := (fs_exists w)(c_str output_path := True),
             trace := trace w @ image_file_events E frame output_path\<rparr>)"
proof -
  have t: "\<And>k xs::bytes. take (min k (length xs)) xs = take k xs"
    by (simp add: min_def)
  show ?thesis using assms
    by (simp add: packet_produced_def decode_and_save_frame_def Let_def
          image_file_events_def emit_def print_def t min_def)
qed


lemma exists_or_create_trace:
  "exists_or_create E dir w = Returns (Some w1) \<Longrightarrow> trace w1 = trace w"
  by (auto simp: exists_or_create_def path_exists_def
           split: outcome.splits bool.splits if_splits)

lemma open_input_Inr:
  assumes "open_input E video_path txt_path w0 = Inr (j, w1)"
  shows "trace w1 = trace w0 @ (if sws_ctx j then [SwsGetContext (pix_fmt (input j))] else [])"
    and "input j = avformat E (c_str video_path)"
    and "sws_ctx j = (pix_fmt (input j) \<noteq> AV_PIX_FMT_YUV420P
                      \<and> pix_fmt (input j) \<noteq> AV_PIX_FMT_YUVJ420P)"
  using assms
  by (auto simp: open_input_def Let_def
           split: outcome.splits bool.splits option.splits if_splits prod.splits)

lemma open_job_Inr:
  assumes "open_job E video_path txt_path output_dir w = Inr (j, w1)"
  shows "trace w1 = trace w @ (if sws_ctx j then [SwsGetContext (pix_fmt (input j))] else [])"
    and "input j = avformat E (c_str video_path)"
    and "sws_ctx j = (pix_fmt (input j) \<noteq> AV_PIX_FMT_YUV420P
                      \<and> pix_fmt (input j) \<noteq> AV_PIX_FMT_YUVJ420P)"
proof -
  from assms obtain w0 where e: "exists_or_create E output_dir w = Returns (Some w0)"
    and o: "open_input E video_path txt_path w0 = Inr (j, w1)"
    by (auto simp: open_job_def split: outcome.splits option.splits)
  show "trace w1 = trace w @ (if sws_ctx j then [SwsGetContext (pix_fmt (input j))] else [])"
    using open_input_Inr(1) [OF o] exists_or_create_trace [OF e] by simp
  show "input j = avformat E (c_str video_path)" using open_input_Inr(2) [OF o] .
  show "sws_ctx j = (pix_fmt (input j) \<noteq> AV_PIX_FMT_YUV420P
                      \<and> pix_fmt (input j) \<noteq> AV_PIX_FMT_YUVJ420P)"
    using open_input_Inr(3) [OF o] .
qed

lemma demo_open_job:
  "open_job (demo_env (text_file ls []) (demo_video fmt ps held) n) v t d demo_world =
     Inr (\<lparr>frame_indices = read_frame_indices (text_file ls []) [],
           video_stream_index = 1,
           sws_ctx = (fmt \<noteq> AV_PIX_FMT_YUV420P \<and> fmt \<noteq> AV_PIX_FMT_YUVJ420P),
           input = demo_video fmt ps held\<rparr>,
          if fmt \<noteq> AV_PIX_FMT_YUV420P \<and> fmt \<noteq> AV_PIX_FMT_YUVJ420P
          then emit (SwsGetContext fmt) demo_world else demo_world)"
  by (simp add: open_job_def open_input_def exists_or_create_def path_exists_def
        demo_env_def demo_world_def demo_video_def)

lemma demo_run:
  "decode_video_to_images (demo_env (text_file ls []) (demo_video fmt ps held) n) v t d
     demo_world =
   (Returns (success (decode_frames (demo_env (text_file ls []) (demo_video fmt ps held) n) d
       \<lparr>frame_indices = read_frame_indices (text_file ls []) [],
           video_stream_index = 1,
           sws_ctx = (fmt \<noteq> AV_PIX_FMT_YUV420P \<and> fmt \<noteq> AV_PIX_FMT_YUVJ420P),
           input = demo_video fmt ps held\<rparr>
       (if fmt \<noteq> AV_PIX_FMT_YUV420P \<and> fmt \<noteq> AV_PIX_FMT_YUVJ420P
          then emit (SwsGetContext fmt) demo_world else demo_world))),
    world (decode_frames (demo_env (text_file ls []) (demo_video fmt ps held) n) d
       \<lparr>frame_indices = read_frame_indices (text_file ls []) [],
           video_stream_index = 1,
           sws_ctx = (fmt \<noteq> AV_PIX_FMT_YUV420P \<and> fmt \<noteq> AV_PIX_FMT_YUVJ420P),
           input = demo_video fmt ps held\<rparr>
       (if fmt \<noteq> AV_PIX_FMT_YUV420P \<and> fmt \<noteq> AV_PIX_FMT_YUVJ420P
          then emit (SwsGetContext fmt) demo_world else demo_world)))"
  unfolding decode_video_to_images_def demo_open_job by (simp add: Let_def)

lemmas run_simps =
  decode_frames_def demo_video_def video_packet_def decode_and_save_frame_def
  convert_frame_def demo_env_def demo_world_def demo_frame_def jpg_path_def emit_def
  print_def Let_def c_str_def static_cast_int_def

lemmas job_simps =
  decode_video_to_images_def open_job_def open_input_def exists_or_create_def
  path_exists_def

subsection \<open>The encoder and the output file\<close>

text \<open>
  C10. When the still-image encoder fails before it has produced a packet (the encoder
  is not found, its context or the packet cannot be allocated, it cannot be opened,
  sending the frame or receiving the packet fails), \<open>decode_and_save_frame\<close> returns
  false, no path comes to exist and no file is opened or written.
\<close>

theorem no_packet_no_file:
  "\<not> avcodec_find_encoder E \<or> \<not> jpeg_alloc_context3 E frame
   \<or> jpeg_open2 E frame quality < 0 \<or> \<not> av_packet_alloc E frame
   \<or> avcodec_send_frame E frame < 0 \<or> avcodec_receive_packet E frame < 0 \<Longrightarrow>
   fst (decode_and_save_frame E frame output_path quality w) = False
   \<and> fs_exists (snd (decode_and_save_frame E frame output_path quality w)) = fs_exists w
   \<and> filter file_event (trace (snd (decode_and_save_frame E frame output_path quality w)))
       = filter file_event (trace w)"
  by (rule save_fails) (auto simp: packet_produced_def)

theorem no_packet_no_file_witness:
  "fst (decode_and_save_frame
          ((demo_env [] (demo_video AV_PIX_FMT_YUV420P [] []) None)
             \<lparr>avcodec_receive_packet := (\<lambda>f. - 11)\<rparr>)
          (demo_frame AV_PIX_FMT_YUV420P 1) ''out/a.jpg'' 100 demo_world) = False
   \<and> filter file_event (trace (snd (decode_and_save_frame
          ((demo_env [] (demo_video AV_PIX_FMT_YUV420P [] []) None)
             \<lparr>avcodec_receive_packet := (\<lambda>f. - 11)\<rparr>)
          (demo_frame AV_PIX_FMT_YUV420P 1) ''out/a.jpg'' 100 demo_world))) = []"
  using no_packet_no_file [of "(demo_env [] (demo_video AV_PIX_FMT_YUV420P [] []) None)
             \<lparr>avcodec_receive_packet := (\<lambda>f. - 11)\<rparr>" "demo_frame AV_PIX_FMT_YUV420P 1" 100
             "''out/a.jpg''" demo_world]
  by (simp add: demo_env_def demo_world_def)

subsection \<open>Short writes\<close>

text \<open>
  C3, as stated, fails: a job whose only frame is written short (2 of 4 bytes) prints
  the short write and returns true.
\<close>

theorem short_write_job_succeeds:
  "decode_video_to_images
      (demo_env (text_file [''a''] [])
         (demo_video AV_PIX_FMT_YUV420P
            [video_packet [Frame (demo_frame AV_PIX_FMT_YUV420P 1)]] []) (Some 2))
      ''v.mp4'' ''v.txt'' ''out'' demo_world
   = (Returns True,
      demo_world
        \<lparr>trace := [SendFrame (demo_frame AV_PIX_FMT_YUV420P 1), FOpen ''out/a.jpg'',
                   FWrite ''out/a.jpg'' [1, 1], Print (ShortWrite 4 2)]\<rparr>)"
proof -
  have l: "read_frame_indices (text_file [''a''] []) [] = [''a'']"
    by (simp add: read_frame_indices_text_file newline_def)
  show ?thesis
    unfolding demo_run l by (simp add: run_simps fun_upd_def)
qed

text \<open>
  C3, amended. When the packet of a frame is written short, \<open>decode_and_save_frame\<close>
  prints the short write as its last line and returns true; the decode loop counts
  the frame as saved, leaves the job's success flag as it was, advances the label cursor
  and goes on with the frames that follow.
\<close>

theorem short_write_printed_not_recorded:
  assumes cursor: "int (frame_count s) < static_cast_int (length labels)"
    and path: "p = jpg_path dir (labels ! frame_count s)"
    and conv: "(if sws then convert_frame E fr (world s) else (Some fr, world s)) = (Some fo, w1)"
    and pkt: "packet_produced E fo 100"
    and opn: "fopen_wb E (c_str p)"
    and short: "fwrite E (c_str p) (jpeg_packet E fo) < length (jpeg_packet E fo)"
  shows "fst (decode_and_save_frame E fo p 100 w1) = True
    \<and> last (trace (snd (decode_and_save_frame E fo p 100 w1)))
        = Print (ShortWrite (length (jpeg_packet E fo))
            (fwrite E (c_str p) (jpeg_packet E fo)))
    \<and> receive_loop E sws labels dir (Frame fr # q) s
        = receive_loop E sws labels dir q
            (s\<lparr>frame_count := frame_count s + 1, decoded_frames := decoded_frames s + 1,
               world := snd (decode_and_save_frame E fo p 100 w1)\<rparr>)"
proof -
  obtain ok w2 where d: "decode_and_save_frame E fo p 100 w1 = (ok, w2)"
    by (cases "decode_and_save_frame E fo p 100 w1") auto
  have ok: "ok" using save_succeeds [OF pkt opn, of w1] d by simp
  have l: "last (trace w2)
        = Print (ShortWrite (length (jpeg_packet E fo))
            (fwrite E (c_str p) (jpeg_packet E fo)))"
    using d pkt opn short
    by (auto simp: decode_and_save_frame_def packet_produced_def Let_def min_def)
  have "receive_loop E sws labels dir (Frame fr # q) s
        = receive_loop E sws labels dir q
            (s\<lparr>frame_count := frame_count s + 1, decoded_frames := decoded_frames s + 1,
               world := w2\<rparr>)"
    using cursor conv d ok by (simp add: path [symmetric])
  then show ?thesis using d ok l by simp
qed

theorem short_write_printed_not_recorded_witness:
  "receive_loop (demo_env [] (demo_video AV_PIX_FMT_YUV420P [] []) (Some 2)) False [''a'']
     ''out'' [Frame (demo_frame AV_PIX_FMT_YUV420P 1)]
     \<lparr>frame_count = 0, decoded_frames = 0, success = True, world = demo_world\<rparr>
   = ([], \<lparr>frame_count = 1, decoded_frames = 1, success = True,
           world = snd (decode_and_save_frame
             (demo_env [] (demo_video AV_PIX_FMT_YUV420P [] []) (Some 2))
             (demo_frame AV_PIX_FMT_YUV420P 1) ''out/a.jpg'' 100 demo_world)\<rparr>)
   \<and> last (trace (snd (decode_and_save_frame
             (demo_env [] (demo_video AV_PIX_FMT_YUV420P [] []) (Some 2))
             (demo_frame AV_PIX_FMT_YUV420P 1) ''out/a.jpg'' 100 demo_world)))
      = Print (ShortWrite 4 2)"
proof -
  let ?E = "demo_env [] (demo_video AV_PIX_FMT_YUV420P [] []) (Some 2)"
  let ?f = "demo_frame AV_PIX_FMT_YUV420P 1"
  let ?s = "\<lparr>frame_count = 0, decoded_frames = 0, success = True, world = demo_world\<rparr>"
  have 1: "int (frame_count ?s) < static_cast_int (length [''a''])"
    by (simp add: static_cast_int_def)
  have 2: "''out/a.jpg'' = jpg_path ''out'' ([''a''] ! frame_count ?s)"
    by (simp add: jpg_path_def)
  have 3: "(if False then convert_frame ?E ?f (world ?s) else (Some ?f, world ?s))
           = (Some ?f, demo_world)" by simp
  have 4: "packet_produced ?E ?f 100" by (simp add: packet_produced_def demo_env_def)
  have 5: "fopen_wb ?E (c_str ''out/a.jpg'')" by (simp add: demo_env_def)
  have 6: "fwrite ?E (c_str ''out/a.jpg'') (jpeg_packet ?E ?f) < length (jpeg_packet ?E ?f)"
    by (simp add: demo_env_def demo_frame_def)
  from short_write_printed_not_recorded [OF 1 2 3 4 5 6, of "[]"] show ?thesis
    by (simp add: demo_env_def demo_frame_def)
qed

subsection \<open>Where the label cursor and the flush differ from the main path\<close>

text \<open>
  C1 fails on the code when the conversion of a frame fails. Two frames in a format
  that needs conversion, two labels \<open>a\<close> and \<open>b\<close>, and \<open>sws_scale\<close> fails on the first
  frame: the loop breaks before \<open>frame_count++\<close>, so the second frame is written as
  \<open>out/a.jpg\<close>, under the first label, and the label \<open>b\<close> is never used.
\<close>

theorem conversion_failure_keeps_cursor:
  "decode_video_to_images
     (conversion_fails_on (demo_frame (AV_PIX_FMT_OTHER 2) 1)
        (demo_env (text_file [''a'', ''b''] [])
           (demo_video (AV_PIX_FMT_OTHER 2)
              [video_packet [Frame (demo_frame (AV_PIX_FMT_OTHER 2) 1)],
               video_packet [Frame (demo_frame (AV_PIX_FMT_OTHER 2) 2)]] []) None))
     ''v.mp4'' ''v.txt'' ''out'' demo_world
   = (Returns False,
      demo_world
        \<lparr>trace := [SwsGetContext (AV_PIX_FMT_OTHER 2),
                   SwsScale (demo_frame (AV_PIX_FMT_OTHER 2) 1), Print ConversionFailed,
                   SwsScale (demo_frame (AV_PIX_FMT_OTHER 2) 2),
                   SendFrame (demo_frame AV_PIX_FMT_YUV420P 2),
                   FOpen ''out/a.jpg'', FWrite ''out/a.jpg'' [2, 2, 2, 2]]\<rparr>)"
proof -
  have l: "read_frame_indices (text_file [''a'', ''b''] []) [] = [''a'', ''b'']"
    by (simp add: read_frame_indices_text_file newline_def)
  show ?thesis
    by (simp add: job_simps conversion_fails_on_def l run_simps fun_upd_def)
qed

text \<open>
  C2 fails on the code for the conversion. One frame in a format that needs conversion:
  when the decoder holds it back until the flush it is sent to the encoder as it is, in
  its own format and with no \<open>sws_scale\<close>; when the decoder releases it in the main phase
  it is converted first.
\<close>

theorem flush_sends_unconverted_frame:
  "trace (snd (decode_video_to_images
     (demo_env (text_file [''a''] [])
        (demo_video (AV_PIX_FMT_OTHER 2) []
           [Frame (demo_frame (AV_PIX_FMT_OTHER 2) 1)]) None)
     ''v.mp4'' ''v.txt'' ''out'' demo_world))
   = [SwsGetContext (AV_PIX_FMT_OTHER 2),
      SendFrame (demo_frame (AV_PIX_FMT_OTHER 2) 1),
      FOpen ''out/a.jpg'', FWrite ''out/a.jpg'' [1, 1, 1, 1]]
   \<and> trace (snd (decode_video_to_images
     (demo_env (text_file [''a''] [])
        (demo_video (AV_PIX_FMT_OTHER 2)
           [video_packet [Frame (demo_frame (AV_PIX_FMT_OTHER 2) 1)]] []) None)
     ''v.mp4'' ''v.txt'' ''out'' demo_world))
   = [SwsGetContext (AV_PIX_FMT_OTHER 2),
      SwsScale (demo_frame (AV_PIX_FMT_OTHER 2) 1),
      SendFrame (demo_frame AV_PIX_FMT_YUV420P 1),
      FOpen ''out/a.jpg'', FWrite ''out/a.jpg'' [1, 1, 1, 1]]"
proof -
  have l: "read_frame_indices (text_file [''a''] []) [] = [''a'']"
    by (simp add: read_frame_indices_text_file newline_def)
  show ?thesis unfolding demo_run l by (simp add: run_simps)
qed

text \<open>
  C9 fails on the code, by the defect of C1. The same video (two frames in a format that
  needs conversion) and the same labels \<open>a\<close> and \<open>b\<close>, run twice. In the run where every
  call succeeds the second frame is written as \<open>out/b.jpg\<close>. In the run where
  \<open>av_frame_alloc\<close> fails once, for the first frame, the loop breaks before
  \<open>frame_count++\<close> and the second frame is written as \<open>out/a.jpg\<close>: the label of a
  frame position is not a function of the video and the labels.
\<close>

theorem allocation_failure_shifts_labels:
  "decode_video_to_images
     (demo_env (text_file [''a'', ''b''] [])
        (demo_video (AV_PIX_FMT_OTHER 2)
           [video_packet [Frame (demo_frame (AV_PIX_FMT_OTHER 2) 1)],
            video_packet [Frame (demo_frame (AV_PIX_FMT_OTHER 2) 2)]] []) None)
     ''v.mp4'' ''v.txt'' ''out'' demo_world
   = (Returns True,
      demo_world
        \<lparr>trace := [SwsGetContext (AV_PIX_FMT_OTHER 2),
                   SwsScale (demo_frame (AV_PIX_FMT_OTHER 2) 1),
                   SendFrame (demo_frame AV_PIX_FMT_YUV420P 1),
                   FOpen ''out/a.jpg'', FWrite ''out/a.jpg'' [1, 1, 1, 1],
                   SwsScale (demo_frame (AV_PIX_FMT_OTHER 2) 2),
                   SendFrame (demo_frame AV_PIX_FMT_YUV420P 2),
                   FOpen ''out/b.jpg'', FWrite ''out/b.jpg'' [2, 2, 2, 2]]\<rparr>)
   \<and> decode_video_to_images
     (frame_alloc_fails_on (demo_frame (AV_PIX_FMT_OTHER 2) 1)
        (demo_env (text_file [''a'', ''b''] [])
           (demo_video (AV_PIX_FMT_OTHER 2)
              [video_packet [Frame (demo_frame (AV_PIX_FMT_OTHER 2) 1)],
               video_packet [Frame (demo_frame (AV_PIX_FMT_OTHER 2) 2)]] []) None))
     ''v.mp4'' ''v.txt'' ''out'' demo_world
   = (Returns False,
      demo_world
        \<lparr>trace := [SwsGetContext (AV_PIX_FMT_OTHER 2),
                   Print ConvertedFrameAllocFailed,
                   SwsScale (demo_frame (AV_PIX_FMT_OTHER 2) 2),
                   SendFrame (demo_frame AV_PIX_FMT_YUV420P 2),
                   FOpen ''out/a.jpg'', FWrite ''out/a.jpg'' [2, 2, 2, 2]]\<rparr>)"
proof -
  have l: "read_frame_indices (text_file [''a'', ''b''] []) [] = [''a'', ''b'']"
    by (simp add: read_frame_indices_text_file newline_def)
  have 1: "decode_video_to_images
     (demo_env (text_file [''a'', ''b''] [])
        (demo_video (AV_PIX_FMT_OTHER 2)
           [video_packet [Frame (demo_frame (AV_PIX_FMT_OTHER 2) 1)],
            video_packet [Frame (demo_frame (AV_PIX_FMT_OTHER 2) 2)]] []) None)
     ''v.mp4'' ''v.txt'' ''out'' demo_world
   = (Returns True,
      demo_world
        \<lparr>trace := [SwsGetContext (AV_PIX_FMT_OTHER 2),
                   SwsScale (demo_frame (AV_PIX_FMT_OTHER 2) 1),
                   SendFrame (demo_frame AV_PIX_FMT_YUV420P 1),
                   FOpen ''out/a.jpg'', FWrite ''out/a.jpg'' [1, 1, 1, 1],
                   SwsScale (demo_frame (AV_PIX_FMT_OTHER 2) 2),
                   SendFrame (demo_frame AV_PIX_FMT_YUV420P 2),
                   FOpen ''out/b.jpg'', FWrite ''out/b.jpg'' [2, 2, 2, 2]]\<rparr>)"
    unfolding demo_run l by (simp add: run_simps fun_upd_def)
  have 2: "decode_video_to_images
     (frame_alloc_fails_on (demo_frame (AV_PIX_FMT_OTHER 2) 1)
        (demo_env (text_file [''a'', ''b''] [])
           (demo_video (AV_PIX_FMT_OTHER 2)
              [video_packet [Frame (demo_frame (AV_PIX_FMT_OTHER 2) 1)],
               video_packet [Frame (demo_frame (AV_PIX_FMT_OTHER 2) 2)]] []) None))
     ''v.mp4'' ''v.txt'' ''out'' demo_world
   = (Returns False,
      demo_world
        \<lparr>trace := [SwsGetContext (AV_PIX_FMT_OTHER 2),
                   Print ConvertedFrameAllocFailed,
                   SwsScale (demo_frame (AV_PIX_FMT_OTHER 2) 2),
                   SendFrame (demo_frame AV_PIX_FMT_YUV420P 2),
                   FOpen ''out/a.jpg'', FWrite ''out/a.jpg'' [2, 2, 2, 2]]\<rparr>)"
    by (simp add: job_simps frame_alloc_fails_on_def l run_simps fun_upd_def)
  show ?thesis using 1 2 by simp
qed

subsection \<open>Frames paired with labels\<close>

lemma map2_snoc:
  "length xs < length ys \<Longrightarrow> map2 c (xs @ [x]) ys = map2 c xs ys @ [c x (ys ! length xs)]"
proof (induction xs arbitrary: ys)
  case Nil
  then show ?case by (cases ys) auto
next
  case (Cons a xs)
  then show ?case by (cases ys) auto
qed

lemma map2_beyond:
  "length ys \<le> length xs \<Longrightarrow> map2 c (xs @ zs) ys = map2 c xs ys"
proof (induction xs arbitrary: ys)
  case Nil
  then show ?case by simp
next
  case (Cons a xs)
  then show ?case by (cases ys) auto
qed

lemma frames_of_append: "frames_of (a @ b) = frames_of a @ frames_of b"
  by (induction a rule: frames_of.induct) auto

lemma length_frames_of: "list_all is_frame q \<Longrightarrow> length (frames_of q) = length q"
  by (induction q rule: frames_of.induct) auto

lemma main_outputs_Cons:
  "main_outputs i (p # ps) =
     (if stream_index p = i \<and> 0 \<le> send_packet_ret p then released p else [])
     @ main_outputs i ps"
  by (simp add: main_outputs_def)

lemma receive_loop_paired:
  assumes step: "\<And>fr q s. int (frame_count s) < static_cast_int (length labels) \<Longrightarrow> Q s \<Longrightarrow>
      \<exists>s'. receive_loop E sws labels dir (Frame fr # q) s = receive_loop E sws labels dir q s'
         \<and> frame_count s' = Suc (frame_count s) \<and> Q s'
         \<and> obs s' = obs s @ c (False, fr) (labels ! frame_count s)"
    and small: "length labels < 2 ^ 31"
  shows "paired Q obs c labels base xs ([], s) \<Longrightarrow> list_all is_frame q \<Longrightarrow>
     paired Q obs c labels base (xs @ map (Pair False) (frames_of q))
       (receive_loop E sws labels dir q s)"
proof (induction q arbitrary: s xs)
  case Nil
  then show ?case by simp
next
  case (Cons a q)
  then obtain fr where a: "a = Frame fr" by (cases a) auto
  have rest: "list_all is_frame q" using Cons.prems(2) by simp
  from Cons.prems(1) have Q: "Q s" and fc: "frame_count s = min (length labels) (length xs)"
    and ob: "obs s = base @ concat (map2 c xs labels)"
    by (auto simp: paired_def)
  have cast: "static_cast_int (length labels) = int (length labels)"
    using small by (rule static_cast_int_small)
  show ?case
  proof (cases "length xs < length labels")
    case True
    then have fcx: "frame_count s = length xs" using fc by simp
    have "int (frame_count s) < static_cast_int (length labels)"
      using True fcx cast by simp
    from step [OF this Q, of fr q] obtain s' where
      r: "receive_loop E sws labels dir (Frame fr # q) s = receive_loop E sws labels dir q s'"
      and fc': "frame_count s' = Suc (frame_count s)" and Q': "Q s'"
      and ob': "obs s' = obs s @ c (False, fr) (labels ! frame_count s)" by blast
    have "paired Q obs c labels base (xs @ [(False, fr)]) ([], s')"
      using Q' fc' ob' ob fcx True by (simp add: paired_def map2_snoc)
    from Cons.IH [OF this rest] show ?thesis
      unfolding a r by (simp del: receive_loop.simps)
  next
    case False
    then have le: "length labels \<le> length xs" by simp
    then have "frame_count s = length labels" using fc by simp
    then have "receive_loop E sws labels dir (a # q) s = (q, s)"
      using cast by (simp add: a)
    then show ?thesis using Q fc ob le rest by (simp add: paired_def map2_beyond)
  qed
qed

lemma receive_loop_paired_queue:
  assumes step: "\<And>fr q s. int (frame_count s) < static_cast_int (length labels) \<Longrightarrow> Q s \<Longrightarrow>
      \<exists>s'. receive_loop E sws labels dir (Frame fr # q) s = receive_loop E sws labels dir q s'
         \<and> frame_count s' = Suc (frame_count s) \<and> Q s'
         \<and> obs s' = obs s @ c (False, fr) (labels ! frame_count s)"
    and small: "length labels < 2 ^ 31"
    and inv: "paired Q obs c labels base xs (q, s)"
    and r: "list_all is_frame r"
  shows "paired Q obs c labels base (xs @ map (Pair False) (frames_of r))
           (receive_loop E sws labels dir (q @ r) s)"
proof (cases q)
  case Nil
  with inv have "paired Q obs c labels base xs ([], s)" by simp
  from receive_loop_paired [where Q = Q and obs = obs and c = c, OF step small this r]
  show ?thesis by (simp add: Nil)
next
  case (Cons a q')
  with inv obtain fr where a: "a = Frame fr" by (cases a) (auto simp: paired_def)
  have cast: "static_cast_int (length labels) = int (length labels)"
    using small by (rule static_cast_int_small)
  from inv Cons have le: "length labels \<le> length xs" by (auto simp: paired_def)
  then have "frame_count s = length labels" using inv by (simp add: paired_def)
  then have "receive_loop E sws labels dir (q @ r) s = (q' @ r, s)"
    using cast by (simp add: Cons a)
  then show ?thesis using inv r le by (auto simp: paired_def Cons map2_beyond)
qed

lemma read_loop_paired:
  assumes step: "\<And>fr q s. int (frame_count s) < static_cast_int (length labels) \<Longrightarrow> Q s \<Longrightarrow>
      \<exists>s'. receive_loop E sws labels dir (Frame fr # q) s = receive_loop E sws labels dir q s'
         \<and> frame_count s' = Suc (frame_count s) \<and> Q s'
         \<and> obs s' = obs s @ c (False, fr) (labels ! frame_count s)"
    and small: "length labels < 2 ^ 31"
  shows "paired Q obs c labels base xs qs \<Longrightarrow> list_all is_frame (main_outputs i ps) \<Longrightarrow>
     paired Q obs c labels base (xs @ map (Pair False) (frames_of (main_outputs i ps)))
       (read_loop E sws labels dir i ps qs)"
proof (induction ps arbitrary: qs xs)
  case Nil
  then show ?case by (cases qs) (simp add: main_outputs_def)
next
  case (Cons p ps)
  obtain q s where qs: "qs = (q, s)" by (cases qs) auto
  show ?case
  proof (cases "stream_index p = i \<and> 0 \<le> send_packet_ret p")
    case True
    with Cons.prems(2) have r: "list_all is_frame (released p)"
      and rest: "list_all is_frame (main_outputs i ps)"
      by (auto simp: main_outputs_Cons)
    from receive_loop_paired_queue [where Q = Q and obs = obs and c = c,
        OF step small Cons.prems(1) [unfolded qs] r]
    have "paired Q obs c labels base (xs @ map (Pair False) (frames_of (released p)))
            (receive_loop E sws labels dir (q @ released p) s)" .
    from Cons.IH [OF this rest] show ?thesis
      using True by (simp add: qs main_outputs_Cons frames_of_append)
  next
    case False
    with Cons.prems(2) have rest: "list_all is_frame (main_outputs i ps)"
      by (auto simp: main_outputs_Cons)
    from Cons.IH [OF Cons.prems(1) rest] show ?thesis
      using False by (auto simp: qs main_outputs_Cons)
  qed
qed

lemma flush_loop_exhausted:
  "static_cast_int (length labels) \<le> int (frame_count s) \<Longrightarrow> list_all is_frame q \<Longrightarrow>
   flush_loop E labels dir q s = s"
proof (induction q)
  case Nil
  then show ?case by simp
next
  case (Cons a q)
  then obtain fr where "a = Frame fr" by (cases a) auto
  with Cons show ?case by simp
qed

lemma flush_loop_paired:
  assumes step: "\<And>fr q s. int (frame_count s) < static_cast_int (length labels) \<Longrightarrow> Q s \<Longrightarrow>
      \<exists>s'. flush_loop E labels dir (Frame fr # q) s = flush_loop E labels dir q s'
         \<and> frame_count s' = Suc (frame_count s) \<and> Q s'
         \<and> obs s' = obs s @ c (True, fr) (labels ! frame_count s)"
    and small: "length labels < 2 ^ 31"
  shows "paired Q obs c labels base xs ([], s) \<Longrightarrow> list_all is_frame q \<Longrightarrow>
     paired Q obs c labels base (xs @ map (Pair True) (frames_of q))
       ([], flush_loop E labels dir q s)"
proof (induction q arbitrary: s xs)
  case Nil
  then show ?case by simp
next
  case (Cons a q)
  then obtain fr where a: "a = Frame fr" by (cases a) auto
  have rest: "list_all is_frame q" using Cons.prems(2) by simp
  from Cons.prems(1) have Q: "Q s" and fc: "frame_count s = min (length labels) (length xs)"
    and ob: "obs s = base @ concat (map2 c xs labels)"
    by (auto simp: paired_def)
  have cast: "static_cast_int (length labels) = int (length labels)"
    using small by (rule static_cast_int_small)
  show ?case
  proof (cases "length xs < length labels")
    case True
    then have fcx: "frame_count s = length xs" using fc by simp
    have "int (frame_count s) < static_cast_int (length labels)"
      using True fcx cast by simp
    from step [OF this Q, of fr q] obtain s' where
      r: "flush_loop E labels dir (Frame fr # q) s = flush_loop E labels dir q s'"
      and fc': "frame_count s' = Suc (frame_count s)" and Q': "Q s'"
      and ob': "obs s' = obs s @ c (True, fr) (labels ! frame_count s)" by blast
    have "paired Q obs c labels base (xs @ [(True, fr)]) ([], s')"
      using Q' fc' ob' ob fcx True by (simp add: paired_def map2_snoc)
    from Cons.IH [OF this rest] show ?thesis
      unfolding a r by (simp del: flush_loop.simps)
  next
    case False
    then have le: "length labels \<le> length xs" by simp
    then have "frame_count s = length labels" using fc by simp
    then have "flush_loop E labels dir (a # q) s = s"
      using cast Cons.prems(2) by (intro flush_loop_exhausted) auto
    then show ?thesis using Q fc ob le by (simp add: paired_def map2_beyond)
  qed
qed

lemma decode_frames_paired:
  assumes step: "\<And>fr q s. int (frame_count s) < static_cast_int (length (frame_indices j))
        \<Longrightarrow> Q s \<Longrightarrow>
      \<exists>s'. receive_loop E (sws_ctx j) (frame_indices j) dir (Frame fr # q) s
             = receive_loop E (sws_ctx j) (frame_indices j) dir q s'
         \<and> frame_count s' = Suc (frame_count s) \<and> Q s'
         \<and> obs s' = obs s @ c (False, fr) (frame_indices j ! frame_count s)"
    and stepF: "\<And>fr q s. int (frame_count s) < static_cast_int (length (frame_indices j))
        \<Longrightarrow> Q s \<Longrightarrow>
      \<exists>s'. flush_loop E (frame_indices j) dir (Frame fr # q) s
             = flush_loop E (frame_indices j) dir q s'
         \<and> frame_count s' = Suc (frame_count s) \<and> Q s'
         \<and> obs s' = obs s @ c (True, fr) (frame_indices j ! frame_count s)"
    and small: "length (frame_indices j) < 2 ^ 31"
    and frames: "list_all is_frame (decoder_outputs j)"
    and start: "Q \<lparr>frame_count = 0, decoded_frames = 0, success = True, world = w\<rparr>"
  shows "Q (decode_frames E dir j w)
     \<and> obs (decode_frames E dir j w)
         = obs \<lparr>frame_count = 0, decoded_frames = 0, success = True, world = w\<rparr>
           @ concat (map2 c (tagged_frames j) (frame_indices j))
     \<and> frame_count (decode_frames E dir j w)
         = min (length (frame_indices j)) (length (decoder_outputs j))"
proof -
  let ?labels = "frame_indices j"
  let ?s0 = "\<lparr>frame_count = 0, decoded_frames = 0, success = True, world = w\<rparr>"
  let ?r = "read_loop E (sws_ctx j) ?labels dir (video_stream_index j)
                (packets (input j)) ([], ?s0)"
  let ?M = "main_outputs (video_stream_index j) (packets (input j))"
  let ?xs = "map (Pair False) (frames_of ?M)"
  have fm: "list_all is_frame ?M" and ff: "list_all is_frame (flushed (input j))"
    using frames by (auto simp: decoder_outputs_def)
  have cast: "static_cast_int (length ?labels) = int (length ?labels)"
    using small by (rule static_cast_int_small)
  have "paired Q obs c ?labels (obs ?s0) [] ([], ?s0)"
    using start by (simp add: paired_def)
  from read_loop_paired [where Q = Q and obs = obs and c = c, OF step small this fm]
  have inv: "paired Q obs c ?labels (obs ?s0) ?xs ?r" by simp
  have d: "decode_frames E dir j w =
          flush_loop E ?labels dir (fst ?r @ flushed (input j)) (snd ?r)"
    by (simp add: decode_frames_def Let_def)
  have len: "length (tagged_frames j) = length (decoder_outputs j)"
    using fm ff by (simp add: tagged_frames_def decoder_outputs_def length_frames_of)
  have "paired Q obs c ?labels (obs ?s0) (tagged_frames j) ([], decode_frames E dir j w)"
  proof (cases "fst ?r = []")
    case True
    with inv have "paired Q obs c ?labels (obs ?s0) ?xs ([], snd ?r)"
      by (simp add: paired_def)
    from flush_loop_paired [where Q = Q and obs = obs and c = c, OF stepF small this ff]
    show ?thesis unfolding d True by (simp add: tagged_frames_def)
  next
    case False
    with inv have le: "length ?labels \<le> length ?xs"
      and fc: "frame_count (snd ?r) = length ?labels"
      and fr: "list_all is_frame (fst ?r)"
      by (auto simp: paired_def)
    have "flush_loop E ?labels dir (fst ?r @ flushed (input j)) (snd ?r) = snd ?r"
      using fc fr ff cast by (intro flush_loop_exhausted) auto
    with inv le show ?thesis unfolding d
      by (auto simp: paired_def tagged_frames_def map2_beyond)
  qed
  then show ?thesis using len by (auto simp: paired_def)
qed

subsection \<open>Every frame saved: the files written\<close>







subsection \<open>No labels\<close>

lemma static_cast_int_0 [simp]: "static_cast_int 0 = 0"
  by (simp add: static_cast_int_def)

lemma receive_loop_no_labels:
  "nothing_saved w0 (world s) \<Longrightarrow>
   nothing_saved w0 (world (snd (receive_loop E sws [] dir q s)))"
proof (cases q)
  case Nil
  assume "nothing_saved w0 (world s)"
  with Nil show ?thesis by simp
next
  case (Cons x q')
  assume "nothing_saved w0 (world s)"
  with Cons show ?thesis by (cases x) (simp_all add: nothing_saved_def sent_frames_append)
qed

lemma receive_loop_no_labels_frames:
  "list_all is_frame q \<Longrightarrow>
   snd (receive_loop E sws [] dir q s) = s
   \<and> list_all is_frame (fst (receive_loop E sws [] dir q s))"
proof (cases q)
  case Nil
  then show ?thesis by simp
next
  case (Cons x q')
  assume "list_all is_frame q"
  with Cons show ?thesis by (cases x) simp_all
qed

lemma read_loop_no_labels:
  "nothing_saved w0 (world s) \<Longrightarrow>
   nothing_saved w0 (world (snd (read_loop E sws [] dir i ps (q, s))))"
proof (induction ps arbitrary: q s)
  case Nil
  then show ?case by simp
next
  case (Cons p ps)
  obtain q' s' where r: "receive_loop E sws [] dir (q @ released p) s = (q', s')"
    by (cases "receive_loop E sws [] dir (q @ released p) s") auto
  have "nothing_saved w0 (world s')"
    using receive_loop_no_labels [OF Cons.prems, of E sws dir "q @ released p"] r by simp
  then show ?case using Cons r by simp
qed

lemma read_loop_no_labels_frames:
  "list_all is_frame q \<Longrightarrow> list_all is_frame (main_outputs i ps) \<Longrightarrow>
   snd (read_loop E sws [] dir i ps (q, s)) = s"
proof (induction ps arbitrary: q)
  case Nil
  then show ?case by simp
next
  case (Cons p ps)
  show ?case
  proof (cases "stream_index p = i \<and> 0 \<le> send_packet_ret p")
    case True
    obtain q' s' where r: "receive_loop E sws [] dir (q @ released p) s = (q', s')"
      by (cases "receive_loop E sws [] dir (q @ released p) s") auto
    have f: "list_all is_frame (q @ released p)" and m: "list_all is_frame (main_outputs i ps)"
      using Cons.prems True by (simp_all add: main_outputs_def)
    have "s' = s" and "list_all is_frame q'"
      using receive_loop_no_labels_frames [OF f, of E sws dir s] r by simp_all
    then show ?thesis using Cons.IH [OF _ m, of q'] True r by simp
  next
    case False
    then have m: "list_all is_frame (main_outputs i ps)"
      using Cons.prems by (auto simp: main_outputs_def)
    show ?thesis using Cons.IH [OF Cons.prems(1) m] False by auto
  qed
qed

lemma flush_loop_no_labels: "flush_loop E [] dir q s = s"
proof (induction q)
  case Nil
  show ?case by simp
next
  case (Cons x q)
  then show ?case by (cases x) simp_all
qed

text \<open>
  C6. With no label, a job that opens opens and writes no file and sends no frame to the
  encoder, whatever the decoder does; and when the decoder reports no hard error in the
  main phase, the job returns true and leaves the world as it was after opening, with
  nothing printed.
\<close>

theorem no_labels_no_files:
  assumes opened: "open_job E video_path txt_path output_dir w = Inr (j, w1)"
    and empty: "frame_indices j = []"
  shows "filter file_event
           (trace (snd (decode_video_to_images E video_path txt_path output_dir w)))
         = filter file_event (trace w)
    \<and> sent_frames (trace (snd (decode_video_to_images E video_path txt_path output_dir w)))
         = sent_frames (trace w)
    \<and> (list_all is_frame (main_outputs (video_stream_index j) (packets (input j)))
       \<longrightarrow> decode_video_to_images E video_path txt_path output_dir w = (Returns True, w1))"
proof -
  let ?s0 = "\<lparr>frame_count = 0, decoded_frames = 0, success = True, world = w1\<rparr>"
  let ?r = "read_loop E (sws_ctx j) [] output_dir (video_stream_index j)
              (packets (input j)) ([], ?s0)"
  have d: "decode_frames E output_dir j w1 = snd ?r"
    by (simp add: decode_frames_def empty flush_loop_no_labels Let_def)
  have "nothing_saved w1 (world ?s0)" by (simp add: nothing_saved_def)
  from read_loop_no_labels [OF this] have n: "nothing_saved w1 (world (snd ?r))" .
  have o: "filter file_event (trace w1) = filter file_event (trace w)"
    "sent_frames (trace w1) = sent_frames (trace w)"
    using open_job_Inr(1) [OF opened] by (auto simp: sent_frames_append)
  have f: "list_all is_frame (main_outputs (video_stream_index j) (packets (input j)))
           \<Longrightarrow> snd ?r = ?s0"
    by (rule read_loop_no_labels_frames) simp_all
  have r: "decode_video_to_images E video_path txt_path output_dir w
           = (Returns (success (snd ?r)), world (snd ?r))"
    by (simp add: decode_video_to_images_def opened d Let_def)
  have 1: "filter file_event (trace (world (snd ?r))) = filter file_event (trace w)"
    and 2: "sent_frames (trace (world (snd ?r))) = sent_frames (trace w)"
    using n o by (simp_all add: nothing_saved_def)
  have 3: "list_all is_frame (main_outputs (video_stream_index j) (packets (input j)))
           \<longrightarrow> (Returns (success (snd ?r)), world (snd ?r)) = (Returns True, w1)"
    using f by simp
  show ?thesis unfolding r using 1 2 3 by simp
qed

theorem no_labels_no_files_witness:
  "decode_video_to_images
      (demo_env (text_file [[], []] [])
         (demo_video AV_PIX_FMT_YUV420P
            [video_packet [Frame (demo_frame AV_PIX_FMT_YUV420P 1)]]
            [Frame (demo_frame AV_PIX_FMT_YUV420P 2)]) None)
      ''v.mp4'' ''v.txt'' ''out'' demo_world
   = (Returns True, demo_world)"
proof -
  let ?v = "demo_video AV_PIX_FMT_YUV420P
            [video_packet [Frame (demo_frame AV_PIX_FMT_YUV420P 1)]]
            [Frame (demo_frame AV_PIX_FMT_YUV420P 2)]"
  let ?j = "\<lparr>frame_indices = read_frame_indices (text_file [[], []] []) [],
           video_stream_index = 1,
           sws_ctx = (AV_PIX_FMT_YUV420P \<noteq> AV_PIX_FMT_YUV420P
                      \<and> AV_PIX_FMT_YUV420P \<noteq> AV_PIX_FMT_YUVJ420P),
           input = ?v\<rparr>"
  have l: "read_frame_indices (text_file [[], []] []) [] = []"
    by (simp add: read_frame_indices_text_file newline_def)
  have 1: "frame_indices ?j = []" by (simp add: l)
  have 2: "list_all is_frame (main_outputs (video_stream_index ?j) (packets (input ?j)))"
    by (simp add: main_outputs_def demo_video_def video_packet_def)
  from no_labels_no_files [OF demo_open_job 1, where video_path = "''v.mp4''" and txt_path = "''v.txt''"
      and output_dir = "''out''"] 2
  show ?thesis by simp
qed

subsection \<open>Streams in an accepted format\<close>

lemma save_sent_frames:
  "sent_frames (trace (snd (decode_and_save_frame E frame p quality w)))
   = sent_frames (trace w) @ (if encoder_started E frame quality then [frame] else [])"
  by (simp add: decode_and_save_frame_def encoder_started_def Let_def sent_frames_append)

lemma save_unconverted:
  "unconverted w0 F w \<Longrightarrow> frame \<in> F \<Longrightarrow>
   unconverted w0 F (snd (decode_and_save_frame E frame p quality w))"
  by (auto simp: unconverted_def decode_and_save_frame_def Let_def sent_frames_append)

lemma print_unconverted: "unconverted w0 F w \<Longrightarrow> unconverted w0 F (print m w)"
  by (auto simp: unconverted_def sent_frames_append)

lemma receive_loop_unconverted:
  "unconverted w0 F (world s) \<Longrightarrow> \<forall>f. Frame f \<in> set q \<longrightarrow> f \<in> F \<Longrightarrow>
   unconverted w0 F (world (snd (receive_loop E False labels dir q s)))
   \<and> set (fst (receive_loop E False labels dir q s)) \<subseteq> set q"
proof (induction q arbitrary: s)
  case Nil
  then show ?case by simp
next
  case (Cons a q)
  show ?case
  proof (cases a)
    case (HardError ret)
    with Cons.prems show ?thesis by (auto intro: print_unconverted)
  next
    case (Frame fr)
    show ?thesis
    proof (cases "int (frame_count s) < static_cast_int (length labels)")
      case False
      with Cons.prems Frame show ?thesis by auto
    next
      case True
      define p where "p = jpg_path dir (labels ! frame_count s)"
      obtain ok w2 where d: "decode_and_save_frame E fr p 100 (world s) = (ok, w2)"
        by (cases "decode_and_save_frame E fr p 100 (world s)") auto
      have fr: "fr \<in> F" using Cons.prems(2) Frame by simp
      have w2: "unconverted w0 F w2"
        using save_unconverted [OF Cons.prems(1) fr, of E p 100] d by simp
      have rest: "\<forall>f. Frame f \<in> set q \<longrightarrow> f \<in> F" using Cons.prems(2) by simp
      show ?thesis
      proof (cases ok)
        case True
        let ?s = "s\<lparr>frame_count := frame_count s + 1,
                     decoded_frames := decoded_frames s + 1, world := w2\<rparr>"
        have "unconverted w0 F (world ?s)" using w2 by simp
        from Cons.IH [OF this rest] show ?thesis
          using \<open>int (frame_count s) < static_cast_int (length labels)\<close> d True Frame
          by (auto simp: p_def [symmetric])
      next
        case False
        let ?s = "s\<lparr>frame_count := frame_count s + 1, success := False,
                       world := print (SaveFrameFailed p) w2\<rparr>"
        have "unconverted w0 F (world ?s)" using w2 by (simp add: print_unconverted)
        from Cons.IH [OF this rest] show ?thesis
          using \<open>int (frame_count s) < static_cast_int (length labels)\<close> d False Frame
          by (auto simp: p_def [symmetric])
      qed
    qed
  qed
qed

lemma read_loop_unconverted:
  "unconverted w0 F (world (snd qs)) \<Longrightarrow> \<forall>f. Frame f \<in> set (fst qs) \<longrightarrow> f \<in> F \<Longrightarrow>
   \<forall>f. Frame f \<in> set (main_outputs i ps) \<longrightarrow> f \<in> F \<Longrightarrow>
   unconverted w0 F (world (snd (read_loop E False labels dir i ps qs)))
   \<and> (\<forall>f. Frame f \<in> set (fst (read_loop E False labels dir i ps qs)) \<longrightarrow> f \<in> F)"
proof (induction ps arbitrary: qs)
  case Nil
  then show ?case by (cases qs) simp
next
  case (Cons p ps)
  obtain q s where qs: "qs = (q, s)" by (cases qs) auto
  have rest: "\<forall>f. Frame f \<in> set (main_outputs i ps) \<longrightarrow> f \<in> F"
    using Cons.prems(3) by (auto simp: main_outputs_Cons)
  show ?case
  proof (cases "stream_index p = i \<and> 0 \<le> send_packet_ret p")
    case True
    have "\<forall>f. Frame f \<in> set (q @ released p) \<longrightarrow> f \<in> F"
      using Cons.prems(2,3) True by (auto simp: qs main_outputs_Cons)
    from receive_loop_unconverted [OF Cons.prems(1) [unfolded qs snd_conv] this, of E labels dir]
    have 1: "unconverted w0 F (world (snd (receive_loop E False labels dir (q @ released p) s)))"
      and 2: "\<forall>f. Frame f \<in> set (fst (receive_loop E False labels dir (q @ released p) s))
               \<longrightarrow> f \<in> F"
      using \<open>\<forall>f. Frame f \<in> set (q @ released p) \<longrightarrow> f \<in> F\<close> by auto
    from Cons.IH [OF 1 2 rest] show ?thesis using True by (simp add: qs)
  next
    case False
    from Cons.IH [OF Cons.prems(1,2) rest] show ?thesis using False by (auto simp: qs)
  qed
qed

lemma flush_loop_unconverted:
  "unconverted w0 F (world s) \<Longrightarrow> \<forall>f. Frame f \<in> set q \<longrightarrow> f \<in> F \<Longrightarrow>
   unconverted w0 F (world (flush_loop E labels dir q s))"
proof (induction q arbitrary: s)
  case Nil
  then show ?case by simp
next
  case (Cons a q)
  show ?case
  proof (cases a)
    case (HardError ret)
    with Cons.prems show ?thesis by simp
  next
    case (Frame fr)
    have rest: "\<forall>f. Frame f \<in> set q \<longrightarrow> f \<in> F" using Cons.prems(2) by simp
    show ?thesis
    proof (cases "int (frame_count s) < static_cast_int (length labels)")
      case False
      with Cons.IH [OF Cons.prems(1) rest] Frame show ?thesis by simp
    next
      case True
      define p where "p = jpg_path dir (labels ! frame_count s)"
      obtain ok w2 where d: "decode_and_save_frame E fr p 100 (world s) = (ok, w2)"
        by (cases "decode_and_save_frame E fr p 100 (world s)") auto
      have fr: "fr \<in> F" using Cons.prems(2) Frame by simp
      have w2: "unconverted w0 F w2"
        using save_unconverted [OF Cons.prems(1) fr, of E p 100] d by simp
      show ?thesis
      proof (cases ok)
        case True
        let ?s = "s\<lparr>frame_count := frame_count s + 1,
                     decoded_frames := decoded_frames s + 1, world := w2\<rparr>"
        have "unconverted w0 F (world ?s)" using w2 by simp
        from Cons.IH [OF this rest] show ?thesis
          using \<open>int (frame_count s) < static_cast_int (length labels)\<close> d True Frame
          by (simp add: p_def [symmetric])
      next
        case False
        let ?s = "s\<lparr>frame_count := frame_count s + 1, success := False,
                       world := print (SaveFrameFailed p) w2\<rparr>"
        have "unconverted w0 F (world ?s)" using w2 by (simp add: print_unconverted)
        from Cons.IH [OF this rest] show ?thesis
          using \<open>int (frame_count s) < static_cast_int (length labels)\<close> d False Frame
          by (simp add: p_def [symmetric])
      qed
    qed
  qed
qed

lemma receive_loop_step_sent:
  assumes lt: "int (frame_count s) < static_cast_int (length labels)"
  shows "\<exists>s'. receive_loop E False labels dir (Frame fr # q) s
             = receive_loop E False labels dir q s'
         \<and> frame_count s' = Suc (frame_count s) \<and> True
         \<and> sent_frames (trace (world s'))
            = sent_frames (trace (world s))
              @ (if encoder_started E fr 100 then [fr] else [])"
proof -
  define p where "p = jpg_path dir (labels ! frame_count s)"
  obtain ok w2 where d: "decode_and_save_frame E fr p 100 (world s) = (ok, w2)"
    by (cases "decode_and_save_frame E fr p 100 (world s)") auto
  have t: "sent_frames (trace w2)
           = sent_frames (trace (world s)) @ (if encoder_started E fr 100 then [fr] else [])"
    using save_sent_frames [of E fr p 100 "world s"] d by simp
  show ?thesis
  proof (cases ok)
    case True
    let ?s = "s\<lparr>frame_count := frame_count s + 1,
                 decoded_frames := decoded_frames s + 1, world := w2\<rparr>"
    have "receive_loop E False labels dir (Frame fr # q) s
          = receive_loop E False labels dir q ?s"
      using lt d True by (simp add: p_def [symmetric])
    then show ?thesis using t by (intro exI [of _ ?s]) simp
  next
    case False
    let ?s = "s\<lparr>frame_count := frame_count s + 1, success := False,
                 world := print (SaveFrameFailed p) w2\<rparr>"
    have "receive_loop E False labels dir (Frame fr # q) s
          = receive_loop E False labels dir q ?s"
      using lt d False by (simp add: p_def [symmetric])
    then show ?thesis using t by (intro exI [of _ ?s]) (simp add: sent_frames_append)
  qed
qed

lemma flush_loop_step_sent:
  assumes lt: "int (frame_count s) < static_cast_int (length labels)"
  shows "\<exists>s'. flush_loop E labels dir (Frame fr # q) s = flush_loop E labels dir q s'
         \<and> frame_count s' = Suc (frame_count s) \<and> True
         \<and> sent_frames (trace (world s'))
            = sent_frames (trace (world s))
              @ (if encoder_started E fr 100 then [fr] else [])"
proof -
  define p where "p = jpg_path dir (labels ! frame_count s)"
  obtain ok w2 where d: "decode_and_save_frame E fr p 100 (world s) = (ok, w2)"
    by (cases "decode_and_save_frame E fr p 100 (world s)") auto
  have t: "sent_frames (trace w2)
           = sent_frames (trace (world s)) @ (if encoder_started E fr 100 then [fr] else [])"
    using save_sent_frames [of E fr p 100 "world s"] d by simp
  show ?thesis
  proof (cases ok)
    case True
    let ?s = "s\<lparr>frame_count := frame_count s + 1,
                 decoded_frames := decoded_frames s + 1, world := w2\<rparr>"
    have "flush_loop E labels dir (Frame fr # q) s = flush_loop E labels dir q ?s"
      using lt d True by (simp add: p_def [symmetric])
    then show ?thesis using t by (intro exI [of _ ?s]) simp
  next
    case False
    let ?s = "s\<lparr>frame_count := frame_count s + 1, success := False,
                 world := print (SaveFrameFailed p) w2\<rparr>"
    have "flush_loop E labels dir (Frame fr # q) s = flush_loop E labels dir q ?s"
      using lt d False by (simp add: p_def [symmetric])
    then show ?thesis using t by (intro exI [of _ ?s]) (simp add: sent_frames_append)
  qed
qed

lemma concat_map2_filter:
  "concat (map2 (\<lambda>tf l. if P (snd tf) then [snd tf] else []) xs (labels::string list))
   = filter P (take (length labels) (map snd xs))"
proof (induction xs arbitrary: labels)
  case Nil
  show ?case by simp
next
  case (Cons x xs)
  show ?case using Cons.IH by (cases labels) simp_all
qed

lemma map_snd_tagged_frames: "map snd (tagged_frames j) = frames_of (decoder_outputs j)"
  by (simp add: tagged_frames_def decoder_outputs_def frames_of_append comp_def)

text \<open>
  C8, as stated, fails: the conversion is decided once per job, from the decoder's pixel
  format (line 222), not from the format of each frame. A frame in YUV420P given out by
  a decoder opened with another pixel format goes through \<open>sws_scale\<close>: a conversion
  context is constructed and the encoder gets the copy.
\<close>

theorem accepted_frame_converted:
  "decode_video_to_images
      (demo_env (text_file [''a''] [])
         (demo_video (AV_PIX_FMT_OTHER 2)
            [video_packet [Frame (demo_frame AV_PIX_FMT_YUV420P 1)]] []) None)
      ''v.mp4'' ''v.txt'' ''out'' demo_world
   = (Returns True,
      demo_world
        \<lparr>trace := [SwsGetContext (AV_PIX_FMT_OTHER 2),
                   SwsScale (demo_frame AV_PIX_FMT_YUV420P 1),
                   SendFrame (demo_frame AV_PIX_FMT_YUV420P 1),
                   FOpen ''out/a.jpg'', FWrite ''out/a.jpg'' [1, 1, 1, 1]]\<rparr>)"
proof -
  have l: "read_frame_indices (text_file [''a''] []) [] = [''a'']"
    by (simp add: read_frame_indices_text_file newline_def)
  show ?thesis
    unfolding demo_run l by (simp add: run_simps fun_upd_def)
qed

text \<open>
  C8, amended. When the decoder's pixel format (\<open>codec_ctx->pix_fmt\<close>, read once before
  decoding) is one of the two formats the encoder accepts, the job has no conversion
  context, the run calls neither \<open>sws_getContext\<close> nor \<open>sws_scale\<close>, and every frame
  sent to the encoder is a frame of the decoder, as the decoder gave it out. When
  moreover the decoder reports no hard error and there are fewer than \<open>2^31\<close> labels,
  the frames sent to the encoder are exactly those of the decoder's first \<open>L\<close> frames
  for which the encoder could be set up, in order.
\<close>

theorem accepted_stream_not_converted:
  assumes opened: "open_job E video_path txt_path output_dir w = Inr (j, w1)"
    and fmt: "pix_fmt (avformat E (c_str video_path)) = AV_PIX_FMT_YUV420P
              \<or> pix_fmt (avformat E (c_str video_path)) = AV_PIX_FMT_YUVJ420P"
  shows "\<not> sws_ctx j
    \<and> filter conversion_event
        (trace (snd (decode_video_to_images E video_path txt_path output_dir w)))
       = filter conversion_event (trace w)
    \<and> set (sent_frames
        (trace (snd (decode_video_to_images E video_path txt_path output_dir w))))
       \<subseteq> set (sent_frames (trace w)) \<union> {f. Frame f \<in> set (decoder_outputs j)}
    \<and> (list_all is_frame (decoder_outputs j) \<and> length (frame_indices j) < 2 ^ 31 \<longrightarrow>
       sent_frames
         (trace (snd (decode_video_to_images E video_path txt_path output_dir w)))
       = sent_frames (trace w)
         @ filter (\<lambda>f. encoder_started E f 100)
             (take (length (frame_indices j)) (frames_of (decoder_outputs j))))"
proof -
  let ?F = "{f. Frame f \<in> set (decoder_outputs j)}"
  let ?s0 = "\<lparr>frame_count = 0, decoded_frames = 0, success = True, world = w1\<rparr>"
  let ?r = "read_loop E False (frame_indices j) output_dir (video_stream_index j)
              (packets (input j)) ([], ?s0)"
  let ?c = "\<lambda>tf (l::string). if encoder_started E (snd tf) 100 then [snd tf] else []"
  have sws: "\<not> sws_ctx j" using open_job_Inr(2,3) [OF opened] fmt by auto
  then have w1: "trace w1 = trace w" using open_job_Inr(1) [OF opened] by simp
  have sws': "sws_ctx j = False" using sws by simp
  have run: "snd (decode_video_to_images E video_path txt_path output_dir w)
             = world (decode_frames E output_dir j w1)"
    by (simp add: decode_video_to_images_def opened Let_def)
  have 0: "unconverted w ?F (world (snd ([], ?s0)))" by (simp add: unconverted_def w1)
  have 1: "\<forall>f. Frame f \<in> set (fst ([]::decoder_output list, ?s0)) \<longrightarrow> f \<in> ?F" by simp
  have 2: "\<forall>f. Frame f \<in> set (main_outputs (video_stream_index j) (packets (input j)))
             \<longrightarrow> f \<in> ?F"
    by (simp add: decoder_outputs_def)
  from read_loop_unconverted [OF 0 1 2, of E "frame_indices j" output_dir]
  have r: "unconverted w ?F (world (snd ?r))"
    and q: "\<forall>f. Frame f \<in> set (fst ?r) \<longrightarrow> f \<in> ?F" by auto
  have "\<forall>f. Frame f \<in> set (fst ?r @ flushed (input j)) \<longrightarrow> f \<in> ?F"
    using q by (auto simp: decoder_outputs_def)
  from flush_loop_unconverted [OF r this, of E "frame_indices j" output_dir]
  have u: "unconverted w ?F (world (decode_frames E output_dir j w1))"
    using sws by (simp add: decode_frames_def Let_def)
  have exact: "sent_frames (trace (world (decode_frames E output_dir j w1)))
       = sent_frames (trace w)
         @ filter (\<lambda>f. encoder_started E f 100)
             (take (length (frame_indices j)) (frames_of (decoder_outputs j)))"
    if frames: "list_all is_frame (decoder_outputs j)"
      and small: "length (frame_indices j) < 2 ^ 31"
  proof -
    have st: "\<exists>s'. receive_loop E (sws_ctx j) (frame_indices j) output_dir (Frame fr # q) s
             = receive_loop E (sws_ctx j) (frame_indices j) output_dir q s'
         \<and> frame_count s' = Suc (frame_count s) \<and> True
         \<and> sent_frames (trace (world s'))
            = sent_frames (trace (world s)) @ ?c (False, fr) (frame_indices j ! frame_count s)"
      if "int (frame_count s) < static_cast_int (length (frame_indices j))" and "True"
      for fr q s
      using receive_loop_step_sent [OF that(1), of E output_dir fr q] unfolding sws'
      by (simp del: receive_loop.simps split del: if_split cong: if_cong)
    have stF: "\<exists>s'. flush_loop E (frame_indices j) output_dir (Frame fr # q) s
             = flush_loop E (frame_indices j) output_dir q s'
         \<and> frame_count s' = Suc (frame_count s) \<and> True
         \<and> sent_frames (trace (world s'))
            = sent_frames (trace (world s)) @ ?c (True, fr) (frame_indices j ! frame_count s)"
      if "int (frame_count s) < static_cast_int (length (frame_indices j))" and "True"
      for fr q s
      using flush_loop_step_sent [OF that(1), of E output_dir fr q]
      by (simp del: flush_loop.simps split del: if_split cong: if_cong)
    from decode_frames_paired [where Q = "\<lambda>s. True"
        and obs = "\<lambda>s. sent_frames (trace (world s))" and c = ?c and E = E
        and dir = output_dir and j = j and w = w1, OF st stF small frames]
    have "sent_frames (trace (world (decode_frames E output_dir j w1)))
          = sent_frames (trace w1) @ concat (map2 ?c (tagged_frames j) (frame_indices j))"
      by simp
    then show ?thesis
      by (simp add: w1 concat_map2_filter [where P = "\<lambda>f. encoder_started E f 100"]
            map_snd_tagged_frames)
  qed
  show ?thesis unfolding run using sws u exact by (simp add: unconverted_def)
qed

theorem accepted_stream_not_converted_witness:
  "filter conversion_event (trace (snd (decode_video_to_images
      (demo_env (text_file [''a'', ''b''] [])
         (demo_video AV_PIX_FMT_YUVJ420P
            [video_packet [Frame (demo_frame AV_PIX_FMT_YUVJ420P 1)]]
            [Frame (demo_frame AV_PIX_FMT_YUVJ420P 2)]) None)
      ''v.mp4'' ''v.txt'' ''out'' demo_world))) = []
   \<and> sent_frames (trace (snd (decode_video_to_images
      (demo_env (text_file [''a'', ''b''] [])
         (demo_video AV_PIX_FMT_YUVJ420P
            [video_packet [Frame (demo_frame AV_PIX_FMT_YUVJ420P 1)]]
            [Frame (demo_frame AV_PIX_FMT_YUVJ420P 2)]) None)
      ''v.mp4'' ''v.txt'' ''out'' demo_world)))
     = [demo_frame AV_PIX_FMT_YUVJ420P 1, demo_frame AV_PIX_FMT_YUVJ420P 2]"
proof -
  let ?v = "demo_video AV_PIX_FMT_YUVJ420P
            [video_packet [Frame (demo_frame AV_PIX_FMT_YUVJ420P 1)]]
            [Frame (demo_frame AV_PIX_FMT_YUVJ420P 2)]"
  let ?E = "demo_env (text_file [''a'', ''b''] []) ?v None"
  let ?j = "\<lparr>frame_indices = read_frame_indices (text_file [''a'', ''b''] []) [],
           video_stream_index = 1,
           sws_ctx = (AV_PIX_FMT_YUVJ420P \<noteq> AV_PIX_FMT_YUV420P
                      \<and> AV_PIX_FMT_YUVJ420P \<noteq> AV_PIX_FMT_YUVJ420P),
           input = ?v\<rparr>"
  have l: "read_frame_indices (text_file [''a'', ''b''] []) [] = [''a'', ''b'']"
    by (simp add: read_frame_indices_text_file newline_def)
  have f: "pix_fmt (avformat ?E (c_str ''v.mp4'')) = AV_PIX_FMT_YUV420P
              \<or> pix_fmt (avformat ?E (c_str ''v.mp4'')) = AV_PIX_FMT_YUVJ420P"
    by (simp add: demo_env_def demo_video_def)
  have 1: "list_all is_frame (decoder_outputs ?j)"
    by (simp add: decoder_outputs_def main_outputs_def demo_video_def video_packet_def)
  have 2: "length (frame_indices ?j) < 2 ^ 31" by (simp add: l)
  from accepted_stream_not_converted [OF demo_open_job f, where txt_path = "''v.txt''" and output_dir = "''out''"]
    1 2
  show ?thesis
    by (simp add: l decoder_outputs_def main_outputs_def demo_video_def video_packet_def
          encoder_started_def demo_env_def demo_world_def)
qed

subsection \<open>The orchestrator\<close>

lemma later_job:
  assumes c: "c = ''ofilm_around_rear_190_3M'' \<or> c = ''ofilm_around_left_190_3M''
        \<or> c = ''ofilm_around_right_190_3M''"
    and ex: "fs_exists w = (\<lambda>p. p \<noteq> output_base @ [CHR 0x5C] @ ''ofilm_around_front_190_3M'')"
  shows "fst (camera_job (create_directories_answers r
            (demo_env (text_file [''a''] [])
              (demo_video AV_PIX_FMT_YUV420P
                 [video_packet [Frame (demo_frame AV_PIX_FMT_YUV420P 1)]] []) None)) c w)
          = Returns True
     \<and> fs_exists (snd (camera_job (create_directories_answers r
            (demo_env (text_file [''a''] [])
              (demo_video AV_PIX_FMT_YUV420P
                 [video_packet [Frame (demo_frame AV_PIX_FMT_YUV420P 1)]] []) None)) c w))
          = fs_exists w
     \<and> trace (snd (camera_job (create_directories_answers r
            (demo_env (text_file [''a''] [])
              (demo_video AV_PIX_FMT_YUV420P
                 [video_packet [Frame (demo_frame AV_PIX_FMT_YUV420P 1)]] []) None)) c w))
          = trace w @ [SendFrame (demo_frame AV_PIX_FMT_YUV420P 1),
                       FOpen (output_base @ [CHR 0x5C] @ c @ ''/a.jpg''),
                       FWrite (output_base @ [CHR 0x5C] @ c @ ''/a.jpg'') [1, 1, 1, 1]]"
proof -
  have l: "read_frame_indices (text_file [''a''] []) [] = [''a'']"
    by (simp add: read_frame_indices_text_file newline_def)
  show ?thesis using c
    by (auto simp: camera_job_def job_simps create_directories_answers_def l ex
          video_dir_def output_base_def run_simps fun_eq_iff)
qed

text \<open>
  C5 fails on the code when the output directory of a job cannot be created:
  \<open>fs::create_directories\<close> (line 412, called without an error code) throws then, and
  nothing catches it. With the directory of the first camera missing, the program ends
  there, with nothing printed and none of the three later jobs run. Were the call to
  return false, as the test \<open>!fs::create_directories(output_dir)\<close> expects, the job
  would be marked failed, each of the three later jobs would write its file and \<open>main\<close>
  would return 0.
\<close>

theorem directory_failure_ends_batch:
  "main (create_directories_answers Throws
           (demo_env (text_file [''a''] [])
              (demo_video AV_PIX_FMT_YUV420P
                 [video_packet [Frame (demo_frame AV_PIX_FMT_YUV420P 1)]] []) None))
     front_directory_missing
   = (Throws, front_directory_missing)
   \<and> fst (main (create_directories_answers (Returns False)
           (demo_env (text_file [''a''] [])
              (demo_video AV_PIX_FMT_YUV420P
                 [video_packet [Frame (demo_frame AV_PIX_FMT_YUV420P 1)]] []) None))
     front_directory_missing) = Returns 0
   \<and> trace (snd (main (create_directories_answers (Returns False)
           (demo_env (text_file [''a''] [])
              (demo_video AV_PIX_FMT_YUV420P
                 [video_packet [Frame (demo_frame AV_PIX_FMT_YUV420P 1)]] []) None))
     front_directory_missing))
     = [Print (MainOutputDirFailed
                 (output_base @ [CHR 0x5C] @ ''ofilm_around_front_190_3M'')),
        SendFrame (demo_frame AV_PIX_FMT_YUV420P 1),
        FOpen (output_base @ [CHR 0x5C] @ ''ofilm_around_rear_190_3M/a.jpg''),
        FWrite (output_base @ [CHR 0x5C] @ ''ofilm_around_rear_190_3M/a.jpg'') [1, 1, 1, 1],
        SendFrame (demo_frame AV_PIX_FMT_YUV420P 1),
        FOpen (output_base @ [CHR 0x5C] @ ''ofilm_around_left_190_3M/a.jpg''),
        FWrite (output_base @ [CHR 0x5C] @ ''ofilm_around_left_190_3M/a.jpg'') [1, 1, 1, 1],
        SendFrame (demo_frame AV_PIX_FMT_YUV420P 1),
        FOpen (output_base @ [CHR 0x5C] @ ''ofilm_around_right_190_3M/a.jpg''),
        FWrite (output_base @ [CHR 0x5C] @ ''ofilm_around_right_190_3M/a.jpg'') [1, 1, 1, 1],
        Print SomeCamerasFailed]"
proof -
  let ?E = "demo_env (text_file [''a''] [])
              (demo_video AV_PIX_FMT_YUV420P
                 [video_packet [Frame (demo_frame AV_PIX_FMT_YUV420P 1)]] []) None"
  let ?front = "output_base @ [CHR 0x5C] @ ''ofilm_around_front_190_3M''"
  define T where "T = create_directories_answers Throws ?E"
  define F where "F = create_directories_answers (Returns False) ?E"
  define w1 where "w1 = print (MainOutputDirFailed ?front) front_directory_missing"
  define w2 where "w2 = snd (camera_job F ''ofilm_around_rear_190_3M'' w1)"
  define w3 where "w3 = snd (camera_job F ''ofilm_around_left_190_3M'' w2)"
  define w4 where "w4 = snd (camera_job F ''ofilm_around_right_190_3M'' w3)"
  have t: "camera_job T ''ofilm_around_front_190_3M'' front_directory_missing
           = (Throws, front_directory_missing)"
    unfolding T_def
    by (simp add: camera_job_def job_simps create_directories_answers_def
          front_directory_missing_def video_dir_def output_base_def demo_env_def c_str_def
          Let_def)
  have f: "camera_job F ''ofilm_around_front_190_3M'' front_directory_missing
           = (Returns False, w1)"
    unfolding F_def w1_def
    by (simp add: camera_job_def job_simps create_directories_answers_def
          front_directory_missing_def video_dir_def output_base_def demo_env_def c_str_def
          Let_def)
  have later: "camera_job F c w
      = (Returns True, snd (camera_job F c w))
    \<and> fs_exists (snd (camera_job F c w)) = fs_exists w
    \<and> trace (snd (camera_job F c w))
        = trace w @ [SendFrame (demo_frame AV_PIX_FMT_YUV420P 1),
                     FOpen (output_base @ [CHR 0x5C] @ c @ ''/a.jpg''),
                     FWrite (output_base @ [CHR 0x5C] @ c @ ''/a.jpg'') [1, 1, 1, 1]]"
    if "c = ''ofilm_around_rear_190_3M'' \<or> c = ''ofilm_around_left_190_3M''
        \<or> c = ''ofilm_around_right_190_3M''"
      and "fs_exists w = (\<lambda>p. p \<noteq> ?front)" for c w
    using later_job [OF that, of "Returns False"] unfolding F_def
    by (simp only: prod_eq_iff fst_conv snd_conv simp_thms)
  have e1: "fs_exists w1 = (\<lambda>p. p \<noteq> ?front)"
    and t1: "trace w1 = [Print (MainOutputDirFailed ?front)]"
    unfolding w1_def by (simp_all add: front_directory_missing_def)
  have j2: "camera_job F ''ofilm_around_rear_190_3M'' w1 = (Returns True, w2)"
    and e2: "fs_exists w2 = (\<lambda>p. p \<noteq> ?front)"
    and t2: "trace w2 = trace w1 @ [SendFrame (demo_frame AV_PIX_FMT_YUV420P 1),
        FOpen (output_base @ [CHR 0x5C] @ ''ofilm_around_rear_190_3M'' @ ''/a.jpg''),
        FWrite (output_base @ [CHR 0x5C] @ ''ofilm_around_rear_190_3M'' @ ''/a.jpg'')
          [1, 1, 1, 1]]"
    using later [OF _ e1, of "''ofilm_around_rear_190_3M''"] e1 unfolding w2_def
    by (simp_all only: simp_thms)
  have j3: "camera_job F ''ofilm_around_left_190_3M'' w2 = (Returns True, w3)"
    and e3: "fs_exists w3 = (\<lambda>p. p \<noteq> ?front)"
    and t3: "trace w3 = trace w2 @ [SendFrame (demo_frame AV_PIX_FMT_YUV420P 1),
        FOpen (output_base @ [CHR 0x5C] @ ''ofilm_around_left_190_3M'' @ ''/a.jpg''),
        FWrite (output_base @ [CHR 0x5C] @ ''ofilm_around_left_190_3M'' @ ''/a.jpg'')
          [1, 1, 1, 1]]"
    using later [OF _ e2, of "''ofilm_around_left_190_3M''"] e2 unfolding w3_def
    by (simp_all only: simp_thms)
  have j4: "camera_job F ''ofilm_around_right_190_3M'' w3 = (Returns True, w4)"
    and t4: "trace w4 = trace w3 @ [SendFrame (demo_frame AV_PIX_FMT_YUV420P 1),
        FOpen (output_base @ [CHR 0x5C] @ ''ofilm_around_right_190_3M'' @ ''/a.jpg''),
        FWrite (output_base @ [CHR 0x5C] @ ''ofilm_around_right_190_3M'' @ ''/a.jpg'')
          [1, 1, 1, 1]]"
    using later [OF _ e3, of "''ofilm_around_right_190_3M''"] unfolding w4_def
    by (simp_all only: simp_thms)
  have loop: "camera_loop F cameras (True, front_directory_missing) = (Returns False, w4)"
    by (simp add: cameras_def f j2 j3 j4)
  have d: "SetDllDirectoryA F \<noteq> Some False" "SetDllDirectoryA T \<noteq> Some False"
    unfolding F_def T_def by (simp_all add: create_directories_answers_def demo_env_def)
  have 1: "main T front_directory_missing = (Throws, front_directory_missing)"
    using d(2) by (simp add: main_def cameras_def t)
  have 2: "main F front_directory_missing = (Returns 0, print SomeCamerasFailed w4)"
    using d(1) by (simp add: main_def loop)
  show ?thesis
    unfolding T_def [symmetric] F_def [symmetric] 1 2
    by (simp add: t4 t3 t2 t1)
qed

end
